theory Spec2Isabelle
  imports Main "HOL-Library.Char_ord" "HOL-Library.List_Lexorder" "HOL-Library.Multiset"
    "HOL-Library.AList"
begin

section \<open>Values of the JavaScript runtime\<close>

text \<open>
  The unified configuration, the native agent documents and the skill records are plain
  JavaScript values obtained from a YAML, TOML or JSON parser. An object is the list of its
  own properties in property order; its keys are pairwise distinct (\<open>wf_json\<close>).
  Numbers are restricted to integers.
\<close>

datatype json =
    JNull
  | JBool bool
  | JNum int
  | JStr string
  | JArr "json list"
  | JObj "(string \<times> json) list"

type_synonym jsmap = "(string \<times> json) list"

fun wf_json :: "json \<Rightarrow> bool" where
  "wf_json (JArr xs) = list_all wf_json xs"
| "wf_json (JObj kvs) = (distinct (map fst kvs) \<and> list_all (\<lambda>(k, v). wf_json v) kvs)"
| "wf_json v = True"

text \<open>Property read \<open>v[k]\<close> (\<open>None\<close> is \<open>undefined\<close>) and JavaScript truthiness.\<close>

definition field :: "json \<Rightarrow> string \<Rightarrow> json option" where
  "field v k = (case v of JObj kvs \<Rightarrow> map_of kvs k | _ \<Rightarrow> None)"

fun truthy :: "json \<Rightarrow> bool" where
  "truthy JNull = False"
| "truthy (JBool b) = b"
| "truthy (JNum n) = (n \<noteq> 0)"
| "truthy (JStr s) = (s \<noteq> [])"
| "truthy (JArr xs) = True"
| "truthy (JObj kvs) = True"

text \<open>
  \<open>JSON.stringify\<close> belongs to the runtime. It is modelled up to the lexical rendering of
  its tokens: the result is the sequence of tokens of the JSON text (separators left out).
\<close>

datatype token =
    TNull | TBool bool | TNum int | TStr string
  | TArrOpen | TArrClose | TObjOpen | TObjClose | TKey string

fun stringify :: "json \<Rightarrow> token list" where
  "stringify JNull = [TNull]"
| "stringify (JBool b) = [TBool b]"
| "stringify (JNum n) = [TNum n]"
| "stringify (JStr s) = [TStr s]"
| "stringify (JArr xs) = TArrOpen # concat (map stringify xs) @ [TArrClose]"
| "stringify (JObj kvs) =
     TObjOpen # concat (map (\<lambda>(k, v). TKey k # stringify v) kvs) @ [TObjClose]"

section \<open>Diff engine (utils/json.ts)\<close>

text \<open>
  \<open>sortValue\<close>: arrays are mapped element by element, in order; an object is rebuilt with its
  keys in sorted order (the default \<open>sort()\<close> of strings, by code unit); anything else is
  returned as it is.
\<close>

fun sortValue :: "json \<Rightarrow> json" where
  "sortValue (JArr xs) = JArr (map sortValue xs)"
| "sortValue (JObj kvs) = JObj (sort_key fst (map (\<lambda>(k, v). (k, sortValue v)) kvs))"
| "sortValue v = v"

text \<open>\<open>stableStringify\<close>; reading a missing property gives \<open>undefined\<close>, which stringifies to
  \<open>undefined\<close> (\<open>None\<close>).\<close>

definition stableStringify :: "json option \<Rightarrow> token list option" where
  "stableStringify value = map_option (\<lambda>x. stringify (sortValue x)) value"

record ServerDiff =
  added :: "string list"
  removed :: "string list"
  changed :: "string list"
  unchanged :: nat

text \<open>The loop over \<open>desiredIds\<close>, carrying \<open>added\<close>, \<open>changed\<close> and \<open>unchanged\<close>.\<close>

fun desired_loop :: "jsmap \<Rightarrow> jsmap \<Rightarrow> string list \<Rightarrow> string list \<times> string list \<times> nat
    \<Rightarrow> string list \<times> string list \<times> nat" where
  "desired_loop current desired [] acc = acc"
| "desired_loop current desired (i # ids) (add, chg, unch) =
     (if i \<notin> set (map fst current) then desired_loop current desired ids (add @ [i], chg, unch)
      else if stableStringify (map_of current i) \<noteq> stableStringify (map_of desired i)
        then desired_loop current desired ids (add, chg @ [i], unch)
      else desired_loop current desired ids (add, chg, unch + 1))"

text \<open>The loop over \<open>currentIds\<close>, carrying \<open>removed\<close>.\<close>

fun current_loop :: "jsmap \<Rightarrow> string list \<Rightarrow> string list \<Rightarrow> string list" where
  "current_loop desired [] rem = rem"
| "current_loop desired (i # ids) rem =
     (if i \<notin> set (map fst desired) then current_loop desired ids (rem @ [i])
      else current_loop desired ids rem)"

definition diffServerMaps :: "jsmap \<Rightarrow> jsmap \<Rightarrow> ServerDiff" where
  "diffServerMaps current desired =
     (case desired_loop current desired (map fst desired) ([], [], 0) of
        (add, chg, unch) \<Rightarrow>
          \<lparr> added = sort add,
            removed = sort (current_loop desired (map fst current) []),
            changed = sort chg,
            unchanged = unch \<rparr>)"

definition hasDiff :: "ServerDiff \<Rightarrow> bool" where
  "hasDiff diff = (length (added diff) > 0 \<or> length (removed diff) > 0 \<or> length (changed diff) > 0)"

subsection \<open>Notions used to state the diff properties\<close>

text \<open>The ids counted by \<open>unchanged\<close>: present on both sides with equal canonical text.\<close>

definition unchanged_ids :: "jsmap \<Rightarrow> jsmap \<Rightarrow> string set" where
  "unchanged_ids A B = {i \<in> fst ` set B. i \<in> fst ` set A \<and>
      stableStringify (map_of A i) = stableStringify (map_of B i)}"

text \<open>\<open>key_perm a b\<close>: \<open>b\<close> is \<open>a\<close> with the properties of any of its objects, at any depth,
  listed in another order.\<close>

inductive key_perm :: "json \<Rightarrow> json \<Rightarrow> bool" where
  same: "key_perm v v"
| arr: "list_all2 key_perm xs ys \<Longrightarrow> key_perm (JArr xs) (JArr ys)"
| obj: "map fst kvs = map fst kvs' \<Longrightarrow> list_all2 key_perm (map snd kvs) (map snd kvs')
        \<Longrightarrow> mset kvs' = mset kvs'' \<Longrightarrow> key_perm (JObj kvs) (JObj kvs'')"


section \<open>Secret resolver (secrets.ts)\<close>

text \<open>
  Every \<open>throw\<close> of the program and every failure of a runtime call is a value of
  \<open>error\<close>: the two errors of the secret resolver, the failures of the file-system calls,
  a parser rejecting the text at a path, a value of the wrong type reaching a runtime
  function, an adapter missing the required field of a server, a skill without content,
  a skill whose source file is missing, and a rollback of an unknown snapshot.
\<close>

datatype error =
    EmptyEnvRef string
  | MissingEnv string string
  | ENOENT string
  | EISDIR string
  | EEXIST string
  | ENOTDIR string
  | ParseError string
  | TypeError string
  | RequiredField string string
  | SkillNeedsContent string
  | SkillSourceNotFound string string
  | SnapshotNotFound string

type_synonym 'a result = "error + 'a"

text \<open>\<open>process.env\<close>.\<close>

type_synonym environment = "string \<rightharpoonup> string"

record SecretResolveOptions =
  allowMissingEnv :: "bool option"

definition isWhitespace :: "char \<Rightarrow> bool" where
  "isWhitespace c = (c \<in> set [CHR '' '', CHR 0x09, CHR 0x0A, CHR 0x0B, CHR 0x0C, CHR 0x0D])"

definition trim :: "string \<Rightarrow> string" where
  "trim s = rev (dropWhile isWhitespace (rev (dropWhile isWhitespace s)))"

definition startsWith :: "string \<Rightarrow> string \<Rightarrow> bool" where
  "startsWith s p = (take (length p) s = p)"

definition resolveStringRef ::
    "environment \<Rightarrow> string \<Rightarrow> string \<Rightarrow> SecretResolveOptions \<Rightarrow> string result" where
  "resolveStringRef penv input context options =
     (if \<not> startsWith input ''env://'' then Inr input
      else let key = trim (drop (length ''env://'') input) in
        if key = [] then Inl (EmptyEnvRef context)
        else (case penv key of
                None \<Rightarrow> if allowMissingEnv options = Some True then Inr input
                        else Inl (MissingEnv key context)
              | Some v \<Rightarrow> Inr v))"

text \<open>Decimal rendering of an array index inside a template string.\<close>

definition digitChar :: "nat \<Rightarrow> char" where
  "digitChar d = ''0123456789'' ! d"

function showNat :: "nat \<Rightarrow> string" where
  "showNat n = (if n < 10 then [digitChar n] else showNat (n div 10) @ [digitChar (n mod 10)])"
  by pat_completeness auto
termination
  by (relation "measure id") auto

declare showNat.simps [simp del]

text \<open>
  \<open>resolveValue\<close>. \<open>resolveArray\<close> is the callback of \<open>value.map\<close> run over the elements with
  their index, \<open>resolveEntries\<close> the loop over \<open>Object.entries\<close>; an exception thrown for one
  element ends the whole call.
\<close>

function resolveValue :: "environment \<Rightarrow> json \<Rightarrow> string \<Rightarrow> SecretResolveOptions \<Rightarrow> json result"
  and resolveArray ::
    "environment \<Rightarrow> json list \<Rightarrow> nat \<Rightarrow> string \<Rightarrow> SecretResolveOptions \<Rightarrow> json list result"
  and resolveEntries ::
    "environment \<Rightarrow> (string \<times> json) list \<Rightarrow> string \<Rightarrow> SecretResolveOptions
      \<Rightarrow> (string \<times> json) list result"
where
  "resolveValue penv (JStr s) context options =
     (case resolveStringRef penv s context options of Inl e \<Rightarrow> Inl e | Inr s' \<Rightarrow> Inr (JStr s'))"
| "resolveValue penv (JArr xs) context options =
     (case resolveArray penv xs 0 context options of Inl e \<Rightarrow> Inl e | Inr ys \<Rightarrow> Inr (JArr ys))"
| "resolveValue penv (JObj kvs) context options =
     (case resolveEntries penv kvs context options of Inl e \<Rightarrow> Inl e | Inr r \<Rightarrow> Inr (JObj r))"
| "resolveValue penv JNull context options = Inr JNull"
| "resolveValue penv (JBool b) context options = Inr (JBool b)"
| "resolveValue penv (JNum n) context options = Inr (JNum n)"
| "resolveArray penv [] index context options = Inr []"
| "resolveArray penv (entry # rest) index context options =
     (case resolveValue penv entry (context @ ''['' @ showNat index @ '']'') options of
        Inl e \<Rightarrow> Inl e
      | Inr y \<Rightarrow> (case resolveArray penv rest (index + 1) context options of
                    Inl e \<Rightarrow> Inl e | Inr ys \<Rightarrow> Inr (y # ys)))"
| "resolveEntries penv [] context options = Inr []"
| "resolveEntries penv ((key, entry) # rest) context options =
     (case resolveValue penv entry (context @ ''.'' @ key) options of
        Inl e \<Rightarrow> Inl e
      | Inr y \<Rightarrow> (case resolveEntries penv rest context options of
                    Inl e \<Rightarrow> Inl e | Inr r \<Rightarrow> Inr ((key, y) # r)))"
  by pat_completeness auto
termination
  by (relation "measure (\<lambda>x. case x of
        Inl (_, v, _) \<Rightarrow> size v
      | Inr (Inl (_, xs, _)) \<Rightarrow> size_list size xs
      | Inr (Inr (_, kvs, _)) \<Rightarrow> size_list (size_prod (\<lambda>_. 0) size) kvs)") auto

definition resolveServerSecrets ::
    "environment \<Rightarrow> string \<Rightarrow> json \<Rightarrow> SecretResolveOptions \<Rightarrow> json result" where
  "resolveServerSecrets penv serverId server options =
     resolveValue penv server (''mcp.servers.'' @ serverId) options"

subsection \<open>Notions used to state the resolver properties\<close>








section \<open>Enablement (planner.ts, skills.ts)\<close>

datatype AgentName = codex | gemini | claude | vscode | antigravity

definition AGENTS :: "AgentName list" where
  "AGENTS = [codex, gemini, claude, vscode, antigravity]"

fun agentKey :: "AgentName \<Rightarrow> string" where
  "agentKey codex = ''codex''"
| "agentKey gemini = ''gemini''"
| "agentKey claude = ''claude''"
| "agentKey vscode = ''vscode''"
| "agentKey antigravity = ''antigravity''"

record TargetConfig =
  enabled :: "bool option"
  allow :: "string list option"
  deny :: "string list option"
  outputPath :: "string option"
  skillsEnabled :: "bool option"
  allowSkills :: "string list option"
  denySkills :: "string list option"
  skillsOutputDir :: "string option"

text \<open>\<open>item.enabledIn && item.enabledIn[agent] === false\<close>, for a server or a skill.\<close>

definition enabledInIsFalse :: "json \<Rightarrow> AgentName \<Rightarrow> bool" where
  "enabledInIsFalse item agent =
     (case field item ''enabledIn'' of
        None \<Rightarrow> False
      | Some e \<Rightarrow> truthy e \<and> field e (agentKey agent) = Some (JBool False))"

definition serverEnabledForAgent :: "string \<Rightarrow> json \<Rightarrow> AgentName \<Rightarrow> TargetConfig \<Rightarrow> bool" where
  "serverEnabledForAgent serverId server agent target =
     (if enabled target = Some False then False
      else if (case allow target of None \<Rightarrow> False
               | Some a \<Rightarrow> length a > 0 \<and> serverId \<notin> set a) then False
      else if (case deny target of None \<Rightarrow> False | Some d \<Rightarrow> serverId \<in> set d) then False
      else if enabledInIsFalse server agent then False
      else True)"

definition skillEnabledForAgent :: "string \<Rightarrow> json \<Rightarrow> AgentName \<Rightarrow> TargetConfig \<Rightarrow> bool" where
  "skillEnabledForAgent skillId skill agent target =
     (if enabled target = Some False \<or> skillsEnabled target = Some False then False
      else if (case allowSkills target of None \<Rightarrow> False
               | Some a \<Rightarrow> length a > 0 \<and> skillId \<notin> set a) then False
      else if (case denySkills target of None \<Rightarrow> False | Some d \<Rightarrow> skillId \<in> set d) then False
      else if enabledInIsFalse skill agent then False
      else True)"

subsection \<open>The precedence rule as the specification words it\<close>



section \<open>Paths, files and the process state\<close>

text \<open>
  Paths are strings. \<open>path.join\<close> is modelled without normalisation, \<open>path.dirname\<close>,
  \<open>path.basename\<close> and \<open>path.extname\<close> for the separator \<open>/\<close>.
\<close>

type_synonym path = string

fun pathJoin :: "string list \<Rightarrow> path" where
  "pathJoin [] = ''.''"
| "pathJoin [a] = a"
| "pathJoin (a # b # rest) = a @ ''/'' @ pathJoin (b # rest)"

definition dirname :: "path \<Rightarrow> path" where
  "dirname p =
     (let r = dropWhile (\<lambda>c. c \<noteq> CHR ''/'') (rev p) in
      if r = [] then ''.''
      else if tl r = [] then ''/''
      else rev (tl r))"

definition basename :: "path \<Rightarrow> string" where
  "basename p = rev (takeWhile (\<lambda>c. c \<noteq> CHR ''/'') (rev p))"

definition extname :: "path \<Rightarrow> string" where
  "extname p =
     (let b = basename p; e = rev (takeWhile (\<lambda>c. c \<noteq> CHR ''.'') (rev b)) in
      if CHR ''.'' \<notin> set b then []
      else if length e + 1 = length b then []
      else CHR ''.'' # e)"

definition isAbsolute :: "path \<Rightarrow> bool" where
  "isAbsolute p = (case p of [] \<Rightarrow> False | c # _ \<Rightarrow> c = CHR ''/'')"

text \<open>The directories above a path, outermost first (those \<open>mkdir\<close> creates when recursive).\<close>

definition parentDirs :: "path \<Rightarrow> path list" where
  "parentDirs p = map (\<lambda>i. take i p) (filter (\<lambda>i. p ! i = CHR ''/'') [1..<length p])"

subsection \<open>Documents kept in files\<close>

record SkillsManifestItem =
  ident :: string
  fileName :: string

record SkillsManifest =
  version :: nat
  items :: "SkillsManifestItem list"

record AppliedAgent =
  agent :: string
  mcpPath :: path
  mcpChanged :: bool
  mcpBackupPath :: "path option"
  mcpExistedBefore :: bool
  skillsDir :: path
  skillsChanged :: bool
  skillsBackupDir :: "path option"
  skillsManifestExistedBefore :: bool

record RollbackMeta =
  snapshotId :: string
  createdAt :: string
  applied :: "AppliedAgent list"

text \<open>
  The text of a file. The serialisers and parsers of the runtime (\<open>JSON.stringify\<close>,
  \<open>JSON.parse\<close>, the TOML library) are not part of the program: a text produced by a
  serialiser is kept as the document it denotes, and a parser gives that document back and
  rejects any other text. \<open>Text\<close> is text that is no document.
\<close>

datatype content =
    Text string
  | Json json
  | Toml json
  | MetaFile RollbackMeta
  | ManifestFile SkillsManifest

text \<open>\<open>content.trim() === ""\<close>.\<close>

definition isBlank :: "content \<Rightarrow> bool" where
  "isBlank c = (case c of Text s \<Rightarrow> trim s = [] | _ \<Rightarrow> False)"

definition itemJson :: "SkillsManifestItem \<Rightarrow> json" where
  "itemJson item = JObj [(''id'', JStr (ident item)), (''fileName'', JStr (fileName item))]"

definition manifestJson :: "SkillsManifest \<Rightarrow> json" where
  "manifestJson m =
     JObj [(''version'', JNum (int (version m))), (''items'', JArr (map itemJson (items m)))]"

definition optionalField :: "string \<Rightarrow> string option \<Rightarrow> (string \<times> json) list" where
  "optionalField k v = (case v of None \<Rightarrow> [] | Some s \<Rightarrow> [(k, JStr s)])"

definition appliedJson :: "AppliedAgent \<Rightarrow> json" where
  "appliedJson a =
     JObj ([(''agent'', JStr (agent a)), (''mcpPath'', JStr (mcpPath a)),
            (''mcpChanged'', JBool (mcpChanged a))]
           @ optionalField ''mcpBackupPath'' (mcpBackupPath a)
           @ [(''mcpExistedBefore'', JBool (mcpExistedBefore a)),
              (''skillsDir'', JStr (skillsDir a)), (''skillsChanged'', JBool (skillsChanged a))]
           @ optionalField ''skillsBackupDir'' (skillsBackupDir a)
           @ [(''skillsManifestExistedBefore'', JBool (skillsManifestExistedBefore a))])"

definition metaJson :: "RollbackMeta \<Rightarrow> json" where
  "metaJson m =
     JObj [(''snapshotId'', JStr (snapshotId m)), (''createdAt'', JStr (createdAt m)),
           (''applied'', JArr (map appliedJson (applied m)))]"

text \<open>\<open>JSON.parse\<close> and \<open>TOML.parse\<close> of the text read at \<open>filePath\<close>.\<close>

definition jsonParse :: "path \<Rightarrow> content \<Rightarrow> json result" where
  "jsonParse filePath c =
     (case c of
        Json v \<Rightarrow> Inr v
      | MetaFile m \<Rightarrow> Inr (metaJson m)
      | ManifestFile m \<Rightarrow> Inr (manifestJson m)
      | _ \<Rightarrow> Inl (ParseError filePath))"

definition tomlParse :: "path \<Rightarrow> content \<Rightarrow> json result" where
  "tomlParse filePath c = (case c of Toml v \<Rightarrow> Inr v | _ \<Rightarrow> Inl (ParseError filePath))"

text \<open>\<open>JSON.parse(raw) as SkillsManifest\<close> and \<open>JSON.parse(raw) as RollbackMeta\<close>: a text is
  read back as a manifest or as a snapshot record only if it was written as one.\<close>

definition parseManifest :: "path \<Rightarrow> content \<Rightarrow> SkillsManifest result" where
  "parseManifest filePath c =
     (case c of ManifestFile m \<Rightarrow> Inr m | _ \<Rightarrow> Inl (ParseError filePath))"

definition parseMeta :: "path \<Rightarrow> content \<Rightarrow> RollbackMeta result" where
  "parseMeta filePath c = (case c of MetaFile m \<Rightarrow> Inr m | _ \<Rightarrow> Inl (ParseError filePath))"

subsection \<open>The file system\<close>

datatype node = File content | Dir

type_synonym filesystem = "(path \<times> node) list"

text \<open>The calls that change the file system. A run of the program leaves the list of the
  changes it made, in order.\<close>

datatype mutation =
    Mkdir path
  | WriteFile path content
  | Rename path path
  | Remove path
  | CopyFile path path

fun applyMutation :: "mutation \<Rightarrow> filesystem \<Rightarrow> filesystem" where
  "applyMutation (Mkdir p) fs =
     fold (\<lambda>d acc. if map_of acc d = None then acc @ [(d, Dir)] else acc) (parentDirs p @ [p]) fs"
| "applyMutation (WriteFile p c) fs = AList.update p (File c) fs"
| "applyMutation (Rename a b) fs =
     (case map_of fs a of None \<Rightarrow> fs | Some n \<Rightarrow> AList.update b n (AList.delete a fs))"
| "applyMutation (Remove p) fs = AList.delete p fs"
| "applyMutation (CopyFile a b) fs =
     (case map_of fs a of Some (File c) \<Rightarrow> AList.update b (File c) fs | _ \<Rightarrow> fs)"

text \<open>The state of a run: the file system, the changes made so far, and what the process
  reads from its surroundings (environment, home and working directory, process id, the
  clock as the sequence of its readings, the runtime's rendering of a time stamp).\<close>

record world =
  fsys :: filesystem
  mutations :: "mutation list"
  processEnv :: environment
  homedir :: path
  cwd :: path
  pid :: nat
  clock :: "nat \<Rightarrow> nat"
  ticks :: nat
  toISOString :: "nat \<Rightarrow> string"

type_synonym 'a io = "world \<Rightarrow> 'a result \<times> world"

definition ret :: "'a \<Rightarrow> 'a io" where
  "ret x w = (Inr x, w)"

definition throw :: "error \<Rightarrow> 'a io" where
  "throw e w = (Inl e, w)"

definition andThen :: "'a io \<Rightarrow> ('a \<Rightarrow> 'b io) \<Rightarrow> 'b io" where
  "andThen m f w = (case m w of (Inl e, w') \<Rightarrow> (Inl e, w') | (Inr x, w') \<Rightarrow> f x w')"

definition tryCatch :: "'a io \<Rightarrow> (error \<Rightarrow> 'a io) \<Rightarrow> 'a io" where
  "tryCatch m h w = (case m w of (Inl e, w') \<Rightarrow> h e w' | (Inr x, w') \<Rightarrow> (Inr x, w'))"

definition liftResult :: "'a result \<Rightarrow> 'a io" where
  "liftResult r w = (r, w)"

text \<open>A loop \<open>for (const x of xs) { await body(x) }\<close>.\<close>

fun forEach :: "'a list \<Rightarrow> ('a \<Rightarrow> unit io) \<Rightarrow> unit io" where
  "forEach [] body = ret ()"
| "forEach (x # xs) body = andThen (body x) (\<lambda>_. forEach xs body)"

definition mutate :: "mutation \<Rightarrow> unit io" where
  "mutate m w = (Inr (), w\<lparr> fsys := applyMutation m (fsys w), mutations := mutations w @ [m] \<rparr>)"

definition nodeAt :: "world \<Rightarrow> path \<Rightarrow> node option" where
  "nodeAt w p = map_of (fsys w) p"

subsection \<open>Calls of node:fs/promises and of the clock\<close>

text \<open>
  A call fails when its path is missing or is a directory where a file is needed, and
  otherwise makes its change. Whether the parent directory of a written file exists is not
  checked; permissions and other failures of the operating system are outside the model.
\<close>

definition access :: "path \<Rightarrow> unit io" where
  "access p w = (if nodeAt w p = None then throw (ENOENT p) w else ret () w)"

definition isFileNode :: "node option \<Rightarrow> bool" where
  "isFileNode n = (case n of Some (File c) \<Rightarrow> True | _ \<Rightarrow> False)"

definition mkdirRecursive :: "path \<Rightarrow> unit io" where
  "mkdirRecursive p w =
     (if list_ex (\<lambda>d. isFileNode (nodeAt w d)) (parentDirs p @ [p])
      then throw (EEXIST p) w else mutate (Mkdir p) w)"

definition readFile :: "path \<Rightarrow> content io" where
  "readFile p w =
     (case nodeAt w p of
        None \<Rightarrow> throw (ENOENT p) w
      | Some Dir \<Rightarrow> throw (EISDIR p) w
      | Some (File c) \<Rightarrow> ret c w)"

definition writeFile :: "path \<Rightarrow> content \<Rightarrow> unit io" where
  "writeFile p c w =
     (if nodeAt w p = Some Dir then throw (EISDIR p) w else mutate (WriteFile p c) w)"

definition rename :: "path \<Rightarrow> path \<Rightarrow> unit io" where
  "rename a b w =
     (if nodeAt w a = None then throw (ENOENT a) w
      else if nodeAt w b = Some Dir then throw (EISDIR b) w
      else mutate (Rename a b) w)"

text \<open>\<open>rm(p, { force: true })\<close>: a missing path is no error, a directory is.\<close>

definition rmForce :: "path \<Rightarrow> unit io" where
  "rmForce p w =
     (case nodeAt w p of
        None \<Rightarrow> ret () w
      | Some Dir \<Rightarrow> throw (EISDIR p) w
      | Some (File c) \<Rightarrow> mutate (Remove p) w)"

definition copyFile :: "path \<Rightarrow> path \<Rightarrow> unit io" where
  "copyFile a b w =
     (case nodeAt w a of
        None \<Rightarrow> throw (ENOENT a) w
      | Some Dir \<Rightarrow> throw (EISDIR a) w
      | Some (File c) \<Rightarrow>
          if nodeAt w b = Some Dir then throw (EISDIR b) w else mutate (CopyFile a b) w)"

text \<open>\<open>readdir(p, { withFileTypes: true })\<close>: the names of the entries directly below \<open>p\<close>,
  each with \<open>isDirectory()\<close>.\<close>

definition readdir :: "path \<Rightarrow> (string \<times> bool) list io" where
  "readdir p w =
     (case nodeAt w p of
        None \<Rightarrow> throw (ENOENT p) w
      | Some (File c) \<Rightarrow> throw (ENOTDIR p) w
      | Some Dir \<Rightarrow>
          ret (map (\<lambda>(q, n). (basename q, n = Dir))
                 (filter (\<lambda>(q, n). dirname q = p \<and> q \<noteq> p) (fsys w))) w)"

text \<open>\<open>Date.now()\<close> and \<open>new Date()\<close>: the next reading of the clock.\<close>

definition now :: "nat io" where
  "now w = (Inr (clock w (ticks w)), w\<lparr> ticks := ticks w + 1 \<rparr>)"

definition getProcess :: "(world \<Rightarrow> 'a) \<Rightarrow> 'a io" where
  "getProcess f w = (Inr (f w), w)"

section \<open>File helpers (utils/fs.ts)\<close>

definition pathExists :: "path \<Rightarrow> bool io" where
  "pathExists filePath = tryCatch (andThen (access filePath) (\<lambda>_. ret True)) (\<lambda>_. ret False)"

definition ensureParentDir :: "path \<Rightarrow> unit io" where
  "ensureParentDir filePath = mkdirRecursive (dirname filePath)"

definition readTextIfExists :: "path \<Rightarrow> content option io" where
  "readTextIfExists filePath =
     andThen (pathExists filePath) (\<lambda>e.
       if \<not> e then ret None
       else andThen (readFile filePath) (\<lambda>c. ret (Some c)))"

definition tempPathOf :: "path \<Rightarrow> nat \<Rightarrow> nat \<Rightarrow> path" where
  "tempPathOf filePath processId t = filePath @ ''.tmp-'' @ showNat processId @ ''-'' @ showNat t"

definition writeTextAtomic :: "path \<Rightarrow> content \<Rightarrow> unit io" where
  "writeTextAtomic filePath c =
     andThen (ensureParentDir filePath) (\<lambda>_.
     andThen (getProcess pid) (\<lambda>processId.
     andThen now (\<lambda>t.
     andThen (writeFile (tempPathOf filePath processId t) c) (\<lambda>_.
     rename (tempPathOf filePath processId t) filePath))))"

definition copyIfExists :: "path \<Rightarrow> path \<Rightarrow> bool io" where
  "copyIfExists fromPath toPath =
     andThen (pathExists fromPath) (\<lambda>e.
       if \<not> e then ret False
       else andThen (ensureParentDir toPath) (\<lambda>_.
            andThen (copyFile fromPath toPath) (\<lambda>_. ret True)))"

section \<open>Agent adapters (adapters/*.ts)\<close>

text \<open>Own enumerable properties of a value, as \<open>Object.entries\<close>, \<open>Object.keys\<close> and the
  spread \<open>{...value}\<close> see them.\<close>

definition indexed :: "json list \<Rightarrow> jsmap" where
  "indexed xs = zip (map showNat [0..<length xs]) xs"

definition ownEntries :: "json \<Rightarrow> jsmap" where
  "ownEntries v =
     (case v of
        JObj kvs \<Rightarrow> kvs
      | JArr xs \<Rightarrow> indexed xs
      | JStr s \<Rightarrow> indexed (map (\<lambda>c. JStr [c]) s)
      | _ \<Rightarrow> [])"

text \<open>\<open>typeof v === "object"\<close> for a truthy \<open>v\<close>.\<close>

definition isObjectLike :: "json \<Rightarrow> bool" where
  "isObjectLike v = (case v of JObj kvs \<Rightarrow> True | JArr xs \<Rightarrow> True | _ \<Rightarrow> False)"

record LoadResult =
  exists :: bool
  data :: json

record AgentAdapter =
  agent :: AgentName
  resolvePath :: "TargetConfig \<Rightarrow> path io"
  load :: "path \<Rightarrow> LoadResult io"
  createEmpty :: json
  extractServers :: "json \<Rightarrow> jsmap result"
  withServers :: "json \<Rightarrow> jsmap \<Rightarrow> json"
  normalizeServer :: "string \<Rightarrow> json \<Rightarrow> jsmap result"
  format :: "json \<Rightarrow> content"

text \<open>\<open>target?.outputPath\<close> when it is truthy.\<close>

definition outputPathOverride :: "TargetConfig \<Rightarrow> path option" where
  "outputPathOverride target =
     (case outputPath target of None \<Rightarrow> None | Some p \<Rightarrow> if p = [] then None else Some p)"

text \<open>
  The \<open>load\<close> method; the adapters differ in the parser and in the empty document only.
  A missing file and a file whose text is empty after trimming both give \<open>exists: false\<close>
  and the empty document.
\<close>

definition loadWith :: "(path \<Rightarrow> content \<Rightarrow> json result) \<Rightarrow> json \<Rightarrow> path \<Rightarrow> LoadResult io" where
  "loadWith parse emptyDoc filePath =
     andThen (readTextIfExists filePath) (\<lambda>c.
       case c of
         None \<Rightarrow> ret \<lparr> exists = False, data = emptyDoc \<rparr>
       | Some t \<Rightarrow>
           if isBlank t then ret \<lparr> exists = False, data = emptyDoc \<rparr>
           else andThen (liftResult (parse filePath t)) (\<lambda>parsed.
                  ret \<lparr> exists = True, data = parsed \<rparr>))"

text \<open>\<open>extractServers\<close> and \<open>withServers\<close> for the top-level key of the adapter. Reading a
  property of \<open>null\<close> throws.\<close>

definition extractServersAt :: "string \<Rightarrow> json \<Rightarrow> jsmap result" where
  "extractServersAt k root =
     (case root of
        JNull \<Rightarrow> Inl (TypeError k)
      | _ \<Rightarrow> (case field root k of
                None \<Rightarrow> Inr []
              | Some servers \<Rightarrow>
                  if \<not> truthy servers \<or> \<not> isObjectLike servers then Inr []
                  else Inr (ownEntries servers)))"

definition withServersAt :: "string \<Rightarrow> json \<Rightarrow> jsmap \<Rightarrow> json" where
  "withServersAt k root servers = JObj (AList.update k (JObj servers) (ownEntries root))"

text \<open>The tests of \<open>normalizeServer\<close>: \<open>v && v.length > 0\<close>, \<open>v && Object.keys(v).length > 0\<close>
  and \<open>typeof v === "number"\<close>; a property is copied when its test holds.\<close>

definition hasLength :: "json \<Rightarrow> bool" where
  "hasLength v = (case v of JArr xs \<Rightarrow> xs \<noteq> [] | JStr s \<Rightarrow> s \<noteq> [] | _ \<Rightarrow> False)"

definition hasKeys :: "json \<Rightarrow> bool" where
  "hasKeys v = (truthy v \<and> ownEntries v \<noteq> [])"

definition isNumber :: "json \<Rightarrow> bool" where
  "isNumber v = (case v of JNum n \<Rightarrow> True | _ \<Rightarrow> False)"

definition present :: "json \<Rightarrow> string \<Rightarrow> bool" where
  "present server k = (case field server k of None \<Rightarrow> False | Some v \<Rightarrow> truthy v)"

definition copyIf :: "json \<Rightarrow> string \<Rightarrow> (json \<Rightarrow> bool) \<Rightarrow> jsmap" where
  "copyIf server k test =
     (case field server k of None \<Rightarrow> [] | Some v \<Rightarrow> if test v then [(k, v)] else [])"

definition isStdio :: "json \<Rightarrow> bool" where
  "isStdio server = (field server ''transport'' = Some (JStr ''stdio''))"

definition typeEntry :: "json \<Rightarrow> jsmap" where
  "typeEntry server = (case field server ''transport'' of None \<Rightarrow> [] | Some t \<Rightarrow> [(''type'', t)])"

subsection \<open>Codex (TOML, \<open>mcp_servers\<close>)\<close>

definition Codex_resolvePath :: "TargetConfig \<Rightarrow> path io" where
  "Codex_resolvePath target =
     (case outputPathOverride target of
        Some p \<Rightarrow> ret p
      | None \<Rightarrow> andThen (getProcess homedir) (\<lambda>home.
                 ret (pathJoin [home, ''.codex'', ''config.toml''])))"

definition Codex_normalizeServer :: "string \<Rightarrow> json \<Rightarrow> jsmap result" where
  "Codex_normalizeServer serverId server =
     (if isStdio server then
        (if \<not> present server ''command'' then Inl (RequiredField serverId ''command'')
         else Inr (copyIf server ''command'' truthy @ copyIf server ''args'' hasLength
                   @ copyIf server ''env'' hasKeys
                   @ copyIf server ''startup_timeout_sec'' isNumber))
      else if \<not> present server ''url'' then Inl (RequiredField serverId ''url'')
      else Inr (copyIf server ''url'' truthy @ copyIf server ''headers'' hasKeys))"

definition CodexAdapter :: AgentAdapter where
  "CodexAdapter =
     \<lparr> agent = codex,
       resolvePath = Codex_resolvePath,
       load = loadWith tomlParse (JObj []),
       createEmpty = JObj [],
       extractServers = extractServersAt ''mcp_servers'',
       withServers = withServersAt ''mcp_servers'',
       normalizeServer = Codex_normalizeServer,
       format = Toml \<rparr>"

subsection \<open>Claude (JSON, \<open>mcpServers\<close>, probes two default paths)\<close>

definition Claude_resolvePath :: "TargetConfig \<Rightarrow> path io" where
  "Claude_resolvePath target =
     (case outputPathOverride target of
        Some p \<Rightarrow> ret p
      | None \<Rightarrow> andThen (getProcess homedir) (\<lambda>home.
                 andThen (pathExists (pathJoin [home, ''.claude.json''])) (\<lambda>e.
                   if e then ret (pathJoin [home, ''.claude.json''])
                   else ret (pathJoin [home, ''.claude'', ''settings.json'']))))"

definition Claude_normalizeServer :: "string \<Rightarrow> json \<Rightarrow> jsmap result" where
  "Claude_normalizeServer serverId server =
     (if isStdio server then
        (if \<not> present server ''command'' then Inl (RequiredField serverId ''command'')
         else Inr ([(''type'', JStr ''stdio'')] @ copyIf server ''command'' truthy
                   @ copyIf server ''args'' hasLength @ copyIf server ''env'' hasKeys))
      else if \<not> present server ''url'' then Inl (RequiredField serverId ''url'')
      else Inr (typeEntry server @ copyIf server ''url'' truthy @ copyIf server ''headers'' hasKeys))"

definition ClaudeAdapter :: AgentAdapter where
  "ClaudeAdapter =
     \<lparr> agent = claude,
       resolvePath = Claude_resolvePath,
       load = loadWith jsonParse (JObj []),
       createEmpty = JObj [],
       extractServers = extractServersAt ''mcpServers'',
       withServers = withServersAt ''mcpServers'',
       normalizeServer = Claude_normalizeServer,
       format = Json \<rparr>"

subsection \<open>Gemini (JSON, \<open>mcpServers\<close>)\<close>

definition Gemini_resolvePath :: "TargetConfig \<Rightarrow> path io" where
  "Gemini_resolvePath target =
     (case outputPathOverride target of
        Some p \<Rightarrow> ret p
      | None \<Rightarrow> andThen (getProcess homedir) (\<lambda>home.
                 ret (pathJoin [home, ''.gemini'', ''settings.json''])))"

definition Gemini_normalizeServer :: "string \<Rightarrow> json \<Rightarrow> jsmap result" where
  "Gemini_normalizeServer serverId server =
     (if isStdio server then
        (if \<not> present server ''command'' then Inl (RequiredField serverId ''command'')
         else Inr ([(''type'', JStr ''stdio'')] @ copyIf server ''command'' truthy
                   @ copyIf server ''args'' hasLength @ copyIf server ''env'' hasKeys
                   @ copyIf server ''startup_timeout_sec'' isNumber))
      else if \<not> present server ''url'' then Inl (RequiredField serverId ''url'')
      else Inr (typeEntry server @ copyIf server ''url'' truthy @ copyIf server ''headers'' hasKeys))"

definition GeminiAdapter :: AgentAdapter where
  "GeminiAdapter =
     \<lparr> agent = gemini,
       resolvePath = Gemini_resolvePath,
       load = loadWith jsonParse (JObj []),
       createEmpty = JObj [],
       extractServers = extractServersAt ''mcpServers'',
       withServers = withServersAt ''mcpServers'',
       normalizeServer = Gemini_normalizeServer,
       format = Json \<rparr>"

subsection \<open>VS Code (JSON, \<open>servers\<close>)\<close>

definition Vscode_resolvePath :: "TargetConfig \<Rightarrow> path io" where
  "Vscode_resolvePath target =
     (case outputPathOverride target of
        Some p \<Rightarrow> ret p
      | None \<Rightarrow> andThen (getProcess processEnv) (\<lambda>penv.
                 andThen (getProcess homedir) (\<lambda>home.
                   ret (pathJoin [case penv ''APPDATA'' of
                                    None \<Rightarrow> pathJoin [home, ''AppData'', ''Roaming'']
                                  | Some appData \<Rightarrow> appData,
                                  ''Code'', ''User'', ''mcp.json'']))))"

definition Vscode_normalizeServer :: "string \<Rightarrow> json \<Rightarrow> jsmap result" where
  "Vscode_normalizeServer serverId server =
     (if isStdio server then
        (if \<not> present server ''command'' then Inl (RequiredField serverId ''command'')
         else Inr (copyIf server ''command'' truthy @ copyIf server ''args'' hasLength
                   @ copyIf server ''env'' hasKeys))
      else if \<not> present server ''url'' then Inl (RequiredField serverId ''url'')
      else Inr (typeEntry server @ copyIf server ''url'' truthy @ copyIf server ''headers'' hasKeys))"

definition VscodeAdapter :: AgentAdapter where
  "VscodeAdapter =
     \<lparr> agent = vscode,
       resolvePath = Vscode_resolvePath,
       load = loadWith jsonParse (JObj [(''servers'', JObj [])]),
       createEmpty = JObj [(''servers'', JObj [])],
       extractServers = extractServersAt ''servers'',
       withServers = withServersAt ''servers'',
       normalizeServer = Vscode_normalizeServer,
       format = Json \<rparr>"

text \<open>
  \<open>getAdapters\<close>. The class \<open>AntigravityAdapter\<close> (adapters/antigravity.ts) is not among the
  sources; it is a parameter.
\<close>

definition getAdapters :: "AgentAdapter \<Rightarrow> AgentAdapter list" where
  "getAdapters antigravityAdapter =
     [CodexAdapter, GeminiAdapter, ClaudeAdapter, VscodeAdapter, antigravityAdapter]"

text \<open>The adapters whose source is present.\<close>

definition sourceAdapters :: "AgentAdapter list" where
  "sourceAdapters = [CodexAdapter, GeminiAdapter, ClaudeAdapter, VscodeAdapter]"

section \<open>Skills materialiser (skills.ts)\<close>

record SkillMaterialized =
  fileName :: string
  content :: content

record ManagedSkillsState =
  manifestExists :: bool
  manifest :: SkillsManifest
  skillsById :: "(string \<times> SkillMaterialized) list"

definition defaultSkillsOutputDir :: "AgentName \<Rightarrow> path io" where
  "defaultSkillsOutputDir ag =
     andThen (getProcess homedir) (\<lambda>home.
       if ag = codex then ret (pathJoin [home, ''.codex'', ''skills'', ''uac-managed''])
       else if ag = gemini then ret (pathJoin [home, ''.gemini'', ''skills'', ''uac-managed''])
       else ret (pathJoin [home, ''.claude'', ''skills'', ''uac-managed'']))"

definition resolveSkillsDir :: "AgentName \<Rightarrow> TargetConfig \<Rightarrow> path io" where
  "resolveSkillsDir ag target =
     (case skillsOutputDir target of Some d \<Rightarrow> ret d | None \<Rightarrow> defaultSkillsOutputDir ag)"

definition getManifestPath :: "path \<Rightarrow> path" where
  "getManifestPath dir = pathJoin [dir, ''.uac-skills-manifest.json'']"

definition noManagedSkills :: ManagedSkillsState where
  "noManagedSkills =
     \<lparr> manifestExists = False, manifest = \<lparr> version = 1, items = [] \<rparr>, skillsById = [] \<rparr>"

text \<open>The loop of \<open>readManagedSkills\<close> over the items of the manifest; a listed file that is
  missing counts as empty text.\<close>

fun readSkillFiles ::
    "path \<Rightarrow> SkillsManifestItem list \<Rightarrow> (string \<times> SkillMaterialized) list
      \<Rightarrow> (string \<times> SkillMaterialized) list io" where
  "readSkillFiles dir [] acc = ret acc"
| "readSkillFiles dir (item # rest) acc =
     andThen (readTextIfExists (pathJoin [dir, SkillsManifestItem.fileName item])) (\<lambda>c.
       readSkillFiles dir rest
         (AList.update (ident item)
            \<lparr> fileName = SkillsManifestItem.fileName item,
              content = (case c of None \<Rightarrow> Text [] | Some t \<Rightarrow> t) \<rparr> acc))"

definition readManagedSkills :: "path \<Rightarrow> ManagedSkillsState io" where
  "readManagedSkills dir =
     andThen (readTextIfExists (getManifestPath dir)) (\<lambda>rawManifest.
       case rawManifest of
         None \<Rightarrow> ret noManagedSkills
       | Some t \<Rightarrow>
           if isBlank t then ret noManagedSkills
           else andThen (liftResult (parseManifest (getManifestPath dir) t)) (\<lambda>m.
                andThen (readSkillFiles dir (items m) []) (\<lambda>byId.
                  ret \<lparr> manifestExists = True, manifest = m, skillsById = byId \<rparr>)))"

definition loadSkillContent :: "string \<Rightarrow> json \<Rightarrow> path \<Rightarrow> content io" where
  "loadSkillContent skillId skill dir =
     (case field skill ''content'' of
        Some (JStr s) \<Rightarrow> ret (Text s)
      | _ \<Rightarrow>
        (case field skill ''sourcePath'' of
           None \<Rightarrow> throw (SkillNeedsContent skillId)
         | Some (JStr sp) \<Rightarrow>
             if sp = [] then throw (SkillNeedsContent skillId)
             else andThen (pathExists (if isAbsolute sp then sp else pathJoin [dir, sp])) (\<lambda>e.
                    if \<not> e
                    then throw (SkillSourceNotFound skillId
                                  (if isAbsolute sp then sp else pathJoin [dir, sp]))
                    else readFile (if isAbsolute sp then sp else pathJoin [dir, sp]))
         | Some v \<Rightarrow>
             if \<not> truthy v then throw (SkillNeedsContent skillId)
             else throw (TypeError ''sourcePath'')))"

text \<open>\<open>skill.fileName ?? `${skillId}.md`\<close>.\<close>

definition skillFileName :: "string \<Rightarrow> json \<Rightarrow> string result" where
  "skillFileName skillId skill =
     (case field skill ''fileName'' of
        None \<Rightarrow> Inr (skillId @ ''.md'')
      | Some JNull \<Rightarrow> Inr (skillId @ ''.md'')
      | Some (JStr s) \<Rightarrow> Inr s
      | Some v \<Rightarrow> Inl (TypeError ''fileName''))"

fun desiredSkillsLoop ::
    "jsmap \<Rightarrow> AgentName \<Rightarrow> TargetConfig \<Rightarrow> path \<Rightarrow> (string \<times> SkillMaterialized) list
      \<Rightarrow> (string \<times> SkillMaterialized) list io" where
  "desiredSkillsLoop [] ag target dir acc = ret acc"
| "desiredSkillsLoop ((skillId, skill) # rest) ag target dir acc =
     (if \<not> skillEnabledForAgent skillId skill ag target
      then desiredSkillsLoop rest ag target dir acc
      else andThen (loadSkillContent skillId skill dir) (\<lambda>c.
           andThen (liftResult (skillFileName skillId skill)) (\<lambda>name.
             desiredSkillsLoop rest ag target dir
               (AList.update skillId \<lparr> fileName = name, content = c \<rparr> acc))))"

definition buildDesiredSkills ::
    "jsmap option \<Rightarrow> AgentName \<Rightarrow> TargetConfig \<Rightarrow> path \<Rightarrow> (string \<times> SkillMaterialized) list io" where
  "buildDesiredSkills skillItems ag target dir =
     desiredSkillsLoop (case skillItems of None \<Rightarrow> [] | Some kvs \<Rightarrow> kvs) ag target dir []"

section \<open>Planner (planner.ts)\<close>

record UnifiedConfig =
  version :: string
  servers :: jsmap
  skills :: "jsmap option"
  targets :: "AgentName \<Rightarrow> TargetConfig option"

record BuildPlanOptions =
  agents :: "AgentName list option"
  configDir :: "path option"
  resolveSecrets :: "bool option"

record AgentPlan =
  agent :: AgentName
  path :: path
  adapter :: AgentAdapter
  targetConfig :: TargetConfig
  fileExists :: bool
  currentData :: json
  currentServers :: jsmap
  desiredServers :: jsmap
  diff :: ServerDiff
  skillsDir :: path
  currentSkills :: "(string \<times> SkillMaterialized) list"
  desiredSkills :: "(string \<times> SkillMaterialized) list"
  skillsDiff :: ServerDiff
  skillsManifestExists :: bool

text \<open>\<open>config.targets?.[adapter.agent] ?? {}\<close>.\<close>

definition emptyTarget :: TargetConfig where
  "emptyTarget =
     \<lparr> enabled = None, allow = None, deny = None, outputPath = None, skillsEnabled = None,
       allowSkills = None, denySkills = None, skillsOutputDir = None \<rparr>"

text \<open>The loop of \<open>normalizeForAgent\<close> over the entries of \<open>config.mcp.servers\<close>.\<close>

fun normalizeLoop ::
    "environment \<Rightarrow> AgentName \<Rightarrow> AgentAdapter \<Rightarrow> TargetConfig \<Rightarrow> BuildPlanOptions
      \<Rightarrow> jsmap \<Rightarrow> jsmap \<Rightarrow> jsmap result" where
  "normalizeLoop penv ag ad target options [] acc = Inr acc"
| "normalizeLoop penv ag ad target options ((serverId, server) # rest) acc =
     (if \<not> serverEnabledForAgent serverId server ag target
      then normalizeLoop penv ag ad target options rest acc
      else case resolveServerSecrets penv serverId server
                  \<lparr> allowMissingEnv = Some (resolveSecrets options \<noteq> Some True) \<rparr> of
             Inl e \<Rightarrow> Inl e
           | Inr resolved \<Rightarrow>
               (case normalizeServer ad serverId resolved of
                  Inl e \<Rightarrow> Inl e
                | Inr n \<Rightarrow> normalizeLoop penv ag ad target options rest
                             (AList.update serverId (JObj n) acc)))"

definition normalizeForAgent ::
    "environment \<Rightarrow> AgentName \<Rightarrow> AgentAdapter \<Rightarrow> UnifiedConfig \<Rightarrow> TargetConfig
      \<Rightarrow> BuildPlanOptions \<Rightarrow> jsmap result" where
  "normalizeForAgent penv ag ad config target options =
     normalizeLoop penv ag ad target options (servers config) []"

text \<open>A skill record as the value the diff engine compares; a skill file that holds a
  document is compared as that document.\<close>

definition contentJson :: "content \<Rightarrow> json" where
  "contentJson c =
     (case c of
        Text s \<Rightarrow> JStr s
      | Json v \<Rightarrow> v
      | Toml v \<Rightarrow> v
      | MetaFile m \<Rightarrow> metaJson m
      | ManifestFile m \<Rightarrow> manifestJson m)"

definition skillEntry :: "string \<times> SkillMaterialized \<Rightarrow> string \<times> json" where
  "skillEntry e =
     (fst e, JObj [(''fileName'', JStr (SkillMaterialized.fileName (snd e))),
                   (''content'', contentJson (content (snd e)))])"

text \<open>\<open>path.resolve\<close> of one path against the working directory.\<close>

definition pathResolve :: "path \<Rightarrow> path io" where
  "pathResolve p =
     andThen (getProcess cwd) (\<lambda>workDir. ret (if isAbsolute p then p else pathJoin [workDir, p]))"

text \<open>The body of the loop of \<open>buildPlan\<close> for one adapter.\<close>

definition planFor :: "UnifiedConfig \<Rightarrow> BuildPlanOptions \<Rightarrow> path \<Rightarrow> AgentAdapter \<Rightarrow> AgentPlan io" where
  "planFor config options dir ad =
     (let target = (case targets config (AgentAdapter.agent ad) of
                      None \<Rightarrow> emptyTarget | Some t \<Rightarrow> t) in
      andThen (resolvePath ad target) (\<lambda>targetPath.
      andThen (load ad targetPath) (\<lambda>loaded.
      andThen (liftResult (extractServers ad (data loaded))) (\<lambda>current.
      andThen (getProcess processEnv) (\<lambda>penv.
      andThen (liftResult (normalizeForAgent penv (AgentAdapter.agent ad) ad config target options))
        (\<lambda>desired.
      andThen (resolveSkillsDir (AgentAdapter.agent ad) target) (\<lambda>sdir.
      andThen (readManagedSkills sdir) (\<lambda>currentSkillsState.
      andThen (buildDesiredSkills (skills config) (AgentAdapter.agent ad) target dir) (\<lambda>wanted.
      andThen (pathResolve sdir) (\<lambda>resolvedDir.
        ret \<lparr> agent = AgentAdapter.agent ad,
              path = targetPath,
              adapter = ad,
              targetConfig = target,
              fileExists = exists loaded,
              currentData = data loaded,
              currentServers = current,
              desiredServers = desired,
              diff = diffServerMaps current desired,
              skillsDir = resolvedDir,
              currentSkills = skillsById currentSkillsState,
              desiredSkills = wanted,
              skillsDiff = diffServerMaps (map skillEntry (skillsById currentSkillsState))
                                          (map skillEntry wanted),
              skillsManifestExists = manifestExists currentSkillsState \<rparr>))))))))))"

fun planLoop ::
    "UnifiedConfig \<Rightarrow> BuildPlanOptions \<Rightarrow> path \<Rightarrow> AgentAdapter list \<Rightarrow> AgentPlan list
      \<Rightarrow> AgentPlan list io" where
  "planLoop config options dir [] plans = ret plans"
| "planLoop config options dir (ad # rest) plans =
     andThen (planFor config options dir ad) (\<lambda>plan.
       planLoop config options dir rest (plans @ [plan]))"

definition buildPlan ::
    "AgentAdapter \<Rightarrow> UnifiedConfig \<Rightarrow> BuildPlanOptions \<Rightarrow> AgentPlan list io" where
  "buildPlan antigravityAdapter config options =
     andThen (getProcess cwd) (\<lambda>workDir.
       planLoop config options
         (case configDir options of None \<Rightarrow> workDir | Some d \<Rightarrow> d)
         (filter (\<lambda>item. AgentAdapter.agent item
                            \<in> set (case agents options of None \<Rightarrow> AGENTS | Some l \<Rightarrow> l))
                 (getAdapters antigravityAdapter))
         [])"

section \<open>Sync and snapshot engine (sync.ts, config.ts)\<close>

definition getStateDir :: "path io" where
  "getStateDir = andThen (getProcess homedir) (\<lambda>home. ret (pathJoin [home, ''.uac'']))"

definition getSnapshotRoot :: "path io" where
  "getSnapshotRoot = andThen getStateDir (\<lambda>stateDir. ret (pathJoin [stateDir, ''snapshots'']))"

record SyncResult =
  snapshotId :: string
  snapshotDir :: path
  applied :: "AppliedAgent list"

text \<open>\<open>new Date().toISOString()\<close>, and \<open>makeSnapshotId\<close> which replaces \<open>:\<close> and \<open>.\<close> by \<open>-\<close>.\<close>

definition currentISOString :: "string io" where
  "currentISOString = andThen now (\<lambda>t. andThen (getProcess toISOString) (\<lambda>render. ret (render t)))"

definition makeSnapshotId :: "string io" where
  "makeSnapshotId =
     andThen currentISOString (\<lambda>iso.
       ret (map (\<lambda>c. if c = CHR '':'' \<or> c = CHR ''.'' then CHR ''-'' else c) iso))"

definition hasSkillsDiff :: "AgentPlan \<Rightarrow> bool" where
  "hasSkillsDiff plan = hasDiff (skillsDiff plan)"

definition backupSkillsState :: "AgentPlan \<Rightarrow> path \<Rightarrow> path io" where
  "backupSkillsState plan snapDir =
     (let agentBackupDir = pathJoin [snapDir, ''skills'', agentKey (AgentPlan.agent plan)] in
      andThen (mkdirRecursive agentBackupDir) (\<lambda>_.
      andThen (readTextIfExists (getManifestPath (AgentPlan.skillsDir plan))) (\<lambda>manifestRaw.
      andThen (case manifestRaw of
                 None \<Rightarrow> ret ()
               | Some raw \<Rightarrow> writeTextAtomic (pathJoin [agentBackupDir, ''manifest.json'']) raw) (\<lambda>_.
      andThen (forEach (map snd (currentSkills plan)) (\<lambda>skill.
                 andThen (pathExists (pathJoin [AgentPlan.skillsDir plan, SkillMaterialized.fileName skill]))
                   (\<lambda>e. if e
                         then andThen (copyIfExists
                                 (pathJoin [AgentPlan.skillsDir plan, SkillMaterialized.fileName skill])
                                 (pathJoin [agentBackupDir, SkillMaterialized.fileName skill]))
                                (\<lambda>_. ret ())
                         else ret ()))) (\<lambda>_.
        ret agentBackupDir)))))"

text \<open>\<open>manifest.items.sort((a, b) => a.id.localeCompare(b.id))\<close>; the collation of the locale
  is taken to be the order of the strings.\<close>

definition sortItems :: "SkillsManifestItem list \<Rightarrow> SkillsManifestItem list" where
  "sortItems xs = sort_key ident xs"

definition applySkills :: "AgentPlan \<Rightarrow> unit io" where
  "applySkills plan =
     andThen (ensureParentDir (pathJoin [AgentPlan.skillsDir plan, ''.placeholder''])) (\<lambda>_.
     andThen (forEach (currentSkills plan) (\<lambda>entry.
                if fst entry \<in> set (map fst (desiredSkills plan)) then ret ()
                else andThen (pathExists (pathJoin [AgentPlan.skillsDir plan,
                                                    SkillMaterialized.fileName (snd entry)]))
                       (\<lambda>e. if e
                             then rmForce (pathJoin [AgentPlan.skillsDir plan,
                                                     SkillMaterialized.fileName (snd entry)])
                             else ret ()))) (\<lambda>_.
     andThen (forEach (desiredSkills plan) (\<lambda>entry.
                writeTextAtomic (pathJoin [AgentPlan.skillsDir plan,
                                           SkillMaterialized.fileName (snd entry)])
                                (content (snd entry)))) (\<lambda>_.
       writeTextAtomic (getManifestPath (AgentPlan.skillsDir plan))
         (ManifestFile \<lparr> SkillsManifest.version = 1,
                          items = sortItems (map (\<lambda>entry. \<lparr> ident = fst entry,
                                     fileName = SkillMaterialized.fileName (snd entry) \<rparr>)
                                   (desiredSkills plan)) \<rparr>))))"

text \<open>\<open>`${plan.agent}${path.extname(plan.path) || ".bak"}`\<close>.\<close>

definition backupName :: "AgentPlan \<Rightarrow> string" where
  "backupName plan =
     agentKey (AgentPlan.agent plan)
       @ (if extname (path plan) = [] then ''.bak'' else extname (path plan))"

text \<open>The body of the loop of \<open>applyPlan\<close> for one plan.\<close>

definition applyOne :: "path \<Rightarrow> AgentPlan \<Rightarrow> AppliedAgent io" where
  "applyOne snapDir plan =
     andThen (if hasDiff (diff plan)
              then andThen (copyIfExists (path plan) (pathJoin [snapDir, backupName plan]))
                     (\<lambda>backupMade. ret (if backupMade
                                         then Some (pathJoin [snapDir, backupName plan])
                                         else None))
              else ret None) (\<lambda>backupPath.
     andThen (if hasSkillsDiff plan
              then andThen (backupSkillsState plan snapDir) (\<lambda>d. ret (Some d))
              else ret None) (\<lambda>backupDir.
     andThen (if hasDiff (diff plan)
              then andThen (ensureParentDir (path plan)) (\<lambda>_.
                     writeTextAtomic (path plan)
                       (format (adapter plan)
                          (withServers (adapter plan) (currentData plan) (desiredServers plan))))
              else ret ()) (\<lambda>_.
     andThen (if hasSkillsDiff plan then applySkills plan else ret ()) (\<lambda>_.
       ret \<lparr> AppliedAgent.agent = agentKey (AgentPlan.agent plan),
             mcpPath = path plan,
             mcpChanged = hasDiff (diff plan),
             mcpBackupPath = backupPath,
             mcpExistedBefore = fileExists plan,
             skillsDir = AgentPlan.skillsDir plan,
             skillsChanged = hasSkillsDiff plan,
             skillsBackupDir = backupDir,
             skillsManifestExistedBefore = skillsManifestExists plan \<rparr>))))"

fun applyLoop :: "path \<Rightarrow> AgentPlan list \<Rightarrow> AppliedAgent list \<Rightarrow> AppliedAgent list io" where
  "applyLoop snapDir [] acc = ret acc"
| "applyLoop snapDir (plan # rest) acc =
     andThen (applyOne snapDir plan) (\<lambda>a. applyLoop snapDir rest (acc @ [a]))"

definition applyPlan :: "AgentPlan list \<Rightarrow> SyncResult io" where
  "applyPlan plans =
     andThen makeSnapshotId (\<lambda>sid.
     andThen getSnapshotRoot (\<lambda>root.
     andThen (mkdirRecursive (pathJoin [root, sid])) (\<lambda>_.
     andThen (applyLoop (pathJoin [root, sid]) plans []) (\<lambda>done.
     andThen currentISOString (\<lambda>created.
     andThen (writeFile (pathJoin [pathJoin [root, sid], ''meta.json''])
                (MetaFile \<lparr> RollbackMeta.snapshotId = sid, createdAt = created, applied = done \<rparr>)) (\<lambda>_.
       ret \<lparr> snapshotId = sid, snapshotDir = pathJoin [root, sid], applied = done \<rparr>))))))"








definition readSnapshotMeta :: "string \<Rightarrow> RollbackMeta option io" where
  "readSnapshotMeta sid =
     andThen getSnapshotRoot (\<lambda>root.
     andThen (pathExists (pathJoin [root, sid, ''meta.json''])) (\<lambda>e.
       if \<not> e then ret None
       else andThen (readFile (pathJoin [root, sid, ''meta.json''])) (\<lambda>raw.
            andThen (liftResult (parseMeta (pathJoin [root, sid, ''meta.json'']) raw)) (\<lambda>m.
              ret (Some m)))))"

section \<open>Notions used to state the properties of the effects\<close>

text \<open>A computation that leaves the whole state as it found it, whatever it returns: no
  change to the file system, nothing added to the list of changes.\<close>

definition readsOnly :: "'a io \<Rightarrow> bool" where
  "readsOnly m = (\<forall>w. snd (m w) = w)"


text \<open>\<open>tempFor target q\<close>: \<open>q\<close> is a temporary name of \<open>target\<close>, in the directory of \<open>target\<close>.\<close>

definition tempFor :: "path \<Rightarrow> path \<Rightarrow> bool" where
  "tempFor target q =
     (take (length target + 5) q = target @ ''.tmp-'' \<and> dirname q = dirname target
      \<and> q \<noteq> target)"

text \<open>
  \<open>complete ms\<close>: in the list of changes \<open>ms\<close> every \<open>WriteFile\<close> writes a temporary name and
  is followed at once by the \<open>Rename\<close> of that name to its target, and no \<open>Rename\<close> occurs
  otherwise; directory creations, removals and copies are not constrained.
  \<open>atomicWrites ms\<close> allows in addition that \<open>ms\<close> ends with the write of a temporary name
  (a run that stopped before the rename).
\<close>

fun complete :: "mutation list \<Rightarrow> bool" where
  "complete [] = True"
| "complete (WriteFile q c # Rename a b # rest) = (a = q \<and> tempFor b q \<and> complete rest)"
| "complete (WriteFile q c # rest) = False"
| "complete (Rename a b # rest) = False"
| "complete (m # rest) = complete rest"

fun atomicWrites :: "mutation list \<Rightarrow> bool" where
  "atomicWrites [] = True"
| "atomicWrites [WriteFile q c] = list_ex (\<lambda>n. tempFor (take n q) q) [0..<Suc (length q)]"
| "atomicWrites (WriteFile q c # Rename a b # rest) = (a = q \<and> tempFor b q \<and> atomicWrites rest)"
| "atomicWrites (WriteFile q c # rest) = False"
| "atomicWrites (Rename a b # rest) = False"
| "atomicWrites (m # rest) = atomicWrites rest"

text \<open>\<open>tracesOK m\<close>: the changes a run of \<open>m\<close> adds are \<open>complete\<close> when \<open>m\<close> returns, and
  satisfy \<open>atomicWrites\<close> when it throws.\<close>

definition tracesOK :: "'a io \<Rightarrow> bool" where
  "tracesOK m =
     (\<forall>w. \<exists>ms. mutations (snd (m w)) = mutations w @ ms
              \<and> (case fst (m w) of Inr x \<Rightarrow> complete ms | Inl e \<Rightarrow> atomicWrites ms))"

text \<open>The changes of \<open>writeTextAtomic filePath c\<close> in a state \<open>w\<close>, when none of its calls
  fails.\<close>

definition atomicSteps :: "world \<Rightarrow> path \<Rightarrow> content \<Rightarrow> mutation list" where
  "atomicSteps w filePath c =
     [Mkdir (dirname filePath),
      WriteFile (tempPathOf filePath (pid w) (clock w (ticks w))) c,
      Rename (tempPathOf filePath (pid w) (clock w (ticks w))) filePath]"


subsection \<open>Paths a sync and its rollback may touch\<close>












section \<open>Example documents\<close>

definition example_current :: jsmap where
  "example_current =
     [(''fs'', JObj [(''command'', JStr ''npx''), (''args'', JArr [JStr ''-y'', JStr ''pkg''])]),
      (''old'', JObj [(''url'', JStr ''http://localhost/sse'')])]"

definition example_desired :: jsmap where
  "example_desired =
     [(''new'', JObj [(''command'', JStr ''node'')]),
      (''fs'', JObj [(''args'', JArr [JStr ''-y'', JStr ''pkg'']), (''command'', JStr ''npx'')])]"



definition example_server :: json where
  "example_server =
     JObj [(''transport'', JStr ''stdio''), (''command'', JStr ''npx''),
           (''args'', JArr [JStr ''-y'', JStr ''pkg'']),
           (''enabledIn'', JObj [(''codex'', JBool True)])]"






text \<open>A stand-in for the adapter whose source is absent: the JSON dialect with the key
  \<open>mcpServers\<close>, as the specification describes the fifth agent.\<close>

definition example_antigravity :: AgentAdapter where
  "example_antigravity = GeminiAdapter\<lparr> AgentAdapter.agent := antigravity \<rparr>"

definition example_world :: world where
  "example_world =
     \<lparr> fsys = [(''/home/u'', Dir), (''/home/u/.claude.json'', File (Text ''  ''))],
       mutations = [],
       processEnv = Map.empty,
       homedir = ''/home/u'',
       cwd = ''/work'',
       pid = 7,
       clock = (\<lambda>n. 1000 + n),
       ticks = 0,
       toISOString = showNat \<rparr>"

definition example_config :: UnifiedConfig where
  "example_config =
     \<lparr> version = ''1'',
       servers = [(''fs'', example_server)],
       skills = None,
       targets = (\<lambda>a. None) \<rparr>"

definition example_options :: BuildPlanOptions where
  "example_options = \<lparr> agents = None, configDir = None, resolveSecrets = None \<rparr>"

text \<open>A home directory with a Gemini settings file that holds a user setting, and a plan
  that adds the server \<open>fs\<close> to it.\<close>

definition sync_world :: world where
  "sync_world =
     \<lparr> fsys = [(''/home/u'', Dir), (''/home/u/notes.txt'', File (Text ''todo'')),
               (''/home/u/.gemini'', Dir),
               (''/home/u/.gemini/settings.json'', File (Json (JObj [(''theme'', JStr ''dark'')])))],
       mutations = [],
       processEnv = Map.empty,
       homedir = ''/home/u'',
       cwd = ''/work'',
       pid = 7,
       clock = (\<lambda>n. 1000 + n),
       ticks = 0,
       toISOString = showNat \<rparr>"

definition noDiff :: ServerDiff where
  "noDiff = \<lparr> added = [], removed = [], changed = [], unchanged = 0 \<rparr>"

definition sync_plan :: AgentPlan where
  "sync_plan =
     \<lparr> agent = gemini,
       path = ''/home/u/.gemini/settings.json'',
       adapter = GeminiAdapter,
       targetConfig = emptyTarget,
       fileExists = True,
       currentData = JObj [(''theme'', JStr ''dark'')],
       currentServers = [],
       desiredServers = [(''fs'', JObj [(''type'', JStr ''stdio''), (''command'', JStr ''npx'')])],
       diff = \<lparr> added = [''fs''], removed = [], changed = [], unchanged = 0 \<rparr>,
       skillsDir = ''/home/u/.gemini/skills/uac-managed'',
       currentSkills = [],
       desiredSkills = [],
       skillsDiff = noDiff,
       skillsManifestExists = False \<rparr>"




section \<open>Properties of the diff engine\<close>

lemma desired_loop_eq:
  "desired_loop c d ids (a, g, u) =
    (a @ filter (\<lambda>i. i \<notin> set (map fst c)) ids,
     g @ filter (\<lambda>i. i \<in> set (map fst c) \<and> stableStringify (map_of c i) \<noteq> stableStringify (map_of d i)) ids,
     u + length (filter (\<lambda>i. i \<in> set (map fst c) \<and> stableStringify (map_of c i) = stableStringify (map_of d i)) ids))"
  by (induction ids arbitrary: a g u) auto

lemma current_loop_eq:
  "current_loop d ids r = r @ filter (\<lambda>i. i \<notin> set (map fst d)) ids"
  by (induction ids arbitrary: r) auto

lemma diff_added: "added (diffServerMaps A B) = sort (filter (\<lambda>i. i \<notin> set (map fst A)) (map fst B))"
  by (simp add: diffServerMaps_def desired_loop_eq)

lemma diff_changed: "changed (diffServerMaps A B) =
   sort (filter (\<lambda>i. i \<in> set (map fst A) \<and> stableStringify (map_of A i) \<noteq> stableStringify (map_of B i)) (map fst B))"
  by (simp add: diffServerMaps_def desired_loop_eq)

lemma diff_unchanged: "unchanged (diffServerMaps A B) =
   length (filter (\<lambda>i. i \<in> set (map fst A) \<and> stableStringify (map_of A i) = stableStringify (map_of B i)) (map fst B))"
  by (simp add: diffServerMaps_def desired_loop_eq)

lemma diff_removed: "removed (diffServerMaps A B) = sort (filter (\<lambda>i. i \<notin> set (map fst B)) (map fst A))"
  by (simp add: diffServerMaps_def desired_loop_eq current_loop_eq)

lemma diff_self: "diffServerMaps A A = \<lparr>added = [], removed = [], changed = [], unchanged = length A\<rparr>"
proof -
  have a: "filter (\<lambda>i. i \<notin> set (map fst A)) (map fst A) = []" by (simp add: filter_empty_conv)
  have c: "filter (\<lambda>i. i \<in> set (map fst A) \<and> stableStringify (map_of A i) \<noteq> stableStringify (map_of A i)) (map fst A) = []"
    by (simp add: filter_empty_conv)
  have u: "length (filter (\<lambda>i. i \<in> set (map fst A) \<and> stableStringify (map_of A i) = stableStringify (map_of A i)) (map fst A)) = length A"
    by (simp add: filter_id_conv)
  show ?thesis
    using a c u by (simp add: diffServerMaps_def desired_loop_eq current_loop_eq)
qed

lemma diff_partition:
  "set (added (diffServerMaps A B)) \<union> set (changed (diffServerMaps A B)) \<union> unchanged_ids A B = fst ` set B"
  by (auto simp: diff_added diff_changed unchanged_ids_def)

lemma diff_disjoint:
  "set (added (diffServerMaps A B)) \<inter> set (changed (diffServerMaps A B)) = {} \<and>
   set (added (diffServerMaps A B)) \<inter> unchanged_ids A B = {} \<and>
   set (changed (diffServerMaps A B)) \<inter> unchanged_ids A B = {}"
  by (auto simp: diff_added diff_changed unchanged_ids_def)

lemma diff_unchanged_card:
  assumes "distinct (map fst B)"
  shows "unchanged (diffServerMaps A B) = card (unchanged_ids A B)"
proof -
  let ?P = "\<lambda>i. i \<in> set (map fst A) \<and> stableStringify (map_of A i) = stableStringify (map_of B i)"
  have "unchanged_ids A B = set (filter ?P (map fst B))"
    by (auto simp: unchanged_ids_def)
  moreover have "distinct (filter ?P (map fst B))" using assms by (rule distinct_filter)
  ultimately have "card (unchanged_ids A B) = length (filter ?P (map fst B))"
    by (simp only: distinct_card)
  then show ?thesis by (simp only: diff_unchanged)
qed

lemma diff_removed_set: "set (removed (diffServerMaps A B)) = fst ` set A - fst ` set B"
  by (auto simp: diff_removed)

lemma diff_sorted: "sorted (added (diffServerMaps A B)) \<and> sorted (removed (diffServerMaps A B)) \<and> sorted (changed (diffServerMaps A B))"
  by (simp add: diff_added diff_changed diff_removed)

lemma sort_key_fst_perm:
  assumes "distinct (map fst xs)" "mset xs = mset ys"
  shows "sort_key fst xs = sort_key fst ys"
proof (rule properties_for_sort_key)
  show "mset (sort_key fst ys) = mset xs" using assms by simp
  show "sorted (map fst (sort_key fst ys))" by simp
  fix k assume "k \<in> set (sort_key fst ys)"
  then have kx: "k \<in> set xs" using assms(2) by (metis set_sort mset_eq_setD)
  have dy: "distinct (map fst ys)" using assms
    by (metis distinct_map mset_eq_setD distinct_count_atmost_1 mset_map mset_eq_imp_distinct_iff)
  have f: "\<And>l. distinct (map fst l) \<Longrightarrow> k \<in> set l \<Longrightarrow> filter (\<lambda>x. fst k = fst x) l = [k]"
  proof -
    fix l :: "('a \<times> 'b) list" assume "distinct (map fst l)" "k \<in> set l"
    then show "filter (\<lambda>x. fst k = fst x) l = [k]"
      by (induction l) (auto simp: filter_empty_conv rev_image_eqI)
  qed
  have "filter (\<lambda>x. fst k = fst x) (sort_key fst ys) = [k]"
    using f[of "sort_key fst ys"] dy \<open>k \<in> set (sort_key fst ys)\<close>
    by (metis distinct_map distinct_sort set_sort inj_on_cong)
  then show "filter (\<lambda>x. fst k = fst x) (sort_key fst ys) = filter (\<lambda>x. fst k = fst x) xs"
    using f[of xs] assms(1) kx by simp
qed


lemma key_perm_sortValue: "key_perm a b \<Longrightarrow> wf_json a \<Longrightarrow> sortValue a = sortValue b"
proof (induction rule: key_perm.induct)
  case (same v)
  show ?case by simp
next
  case (arr xs ys)
  from arr.IH arr.prems have "map sortValue xs = map sortValue ys"
    by (induction rule: list_all2_induct) auto
  then show ?case by simp
next
  case (obj kvs kvs' kvs'')
  let ?f = "\<lambda>(k, v). (k, sortValue v)"
  from obj.prems have d: "distinct (map fst kvs)" and w: "list_all wf_json (map snd kvs)"
    by (auto simp: list_all_iff)
  from obj.IH w have sv: "map sortValue (map snd kvs) = map sortValue (map snd kvs')"
    by (induction rule: list_all2_induct) auto
  have "map ?f kvs = zip (map fst kvs) (map sortValue (map snd kvs))"
    by (induction kvs) auto
  moreover have "map ?f kvs' = zip (map fst kvs') (map sortValue (map snd kvs'))"
    by (induction kvs') auto
  ultimately have e: "map ?f kvs = map ?f kvs'" using sv obj.hyps(1) by simp
  have fm: "map fst (map ?f kvs') = map fst kvs'" by (induction kvs') auto
  have "distinct (map fst (map ?f kvs'))" using d obj.hyps(1) unfolding fm by simp
  moreover have "mset (map ?f kvs') = mset (map ?f kvs'')" using obj.hyps(2) by (metis mset_map)
  ultimately have "sort_key fst (map ?f kvs') = sort_key fst (map ?f kvs'')"
    by (rule sort_key_fst_perm)
  then show ?case using e by simp
qed








lemma diff_key_perm_not_changed:
  assumes "\<forall>i a b. map_of A i = Some a \<longrightarrow> map_of B i = Some b \<longrightarrow> wf_json a \<and> key_perm a b"
  shows "changed (diffServerMaps A B) = []"
proof -
  have "\<And>i. i \<in> fst ` set A \<Longrightarrow> i \<in> fst ` set B \<Longrightarrow> stableStringify (map_of A i) = stableStringify (map_of B i)"
  proof -
    fix i assume "i \<in> fst ` set A" "i \<in> fst ` set B"
    then obtain a b where ab: "map_of A i = Some a" "map_of B i = Some b"
      by (metis map_of_eq_None_iff not_Some_eq)
    with assms have "sortValue a = sortValue b" using key_perm_sortValue by blast
    with ab show "stableStringify (map_of A i) = stableStringify (map_of B i)"
      by (simp add: stableStringify_def)
  qed
  then show ?thesis by (auto simp: diff_changed filter_empty_conv)
qed


text \<open>
  C2 (diff correctness). For maps \<open>A\<close> and \<open>B\<close> (objects, so with distinct keys): the diff of
  \<open>A\<close> with itself has empty \<open>added\<close>, \<open>removed\<close> and \<open>changed\<close> and counts every key as
  unchanged; in the diff of \<open>A\<close> and \<open>B\<close> the added ids, the changed ids and the ids counted by
  \<open>unchanged\<close> are pairwise disjoint and together exactly the keys of \<open>B\<close>, and the removed ids
  are exactly the keys of \<open>A\<close> that \<open>B\<close> lacks; if every value of \<open>B\<close> is the value of \<open>A\<close> at
  the same id with the keys of its nested objects permuted, nothing is reported as changed;
  the three id lists are sorted lexicographically.
\<close>

theorem diffServerMaps_correct:
  assumes "distinct (map fst A)" and "distinct (map fst B)"
  shows "diffServerMaps A A = \<lparr>added = [], removed = [], changed = [], unchanged = card (fst ` set A)\<rparr>
    \<and> set (added (diffServerMaps A B)) \<union> set (changed (diffServerMaps A B)) \<union> unchanged_ids A B
        = fst ` set B
    \<and> unchanged (diffServerMaps A B) = card (unchanged_ids A B)
    \<and> set (added (diffServerMaps A B)) \<inter> set (changed (diffServerMaps A B)) = {}
    \<and> set (added (diffServerMaps A B)) \<inter> unchanged_ids A B = {}
    \<and> set (changed (diffServerMaps A B)) \<inter> unchanged_ids A B = {}
    \<and> set (removed (diffServerMaps A B)) = fst ` set A - fst ` set B
    \<and> ((\<forall>i a b. map_of A i = Some a \<longrightarrow> map_of B i = Some b \<longrightarrow> wf_json a \<and> key_perm a b)
         \<longrightarrow> changed (diffServerMaps A B) = [])
    \<and> sorted (added (diffServerMaps A B)) \<and> sorted (removed (diffServerMaps A B))
    \<and> sorted (changed (diffServerMaps A B))"
proof -
  have "card (fst ` set A) = length A"
    using assms(1) by (metis distinct_card length_map set_map)
  then have self: "diffServerMaps A A = \<lparr>added = [], removed = [], changed = [], unchanged = card (fst ` set A)\<rparr>"
    by (simp only: diff_self)
  show ?thesis
    using self diff_partition[of A B] diff_unchanged_card[OF assms(2), of A] diff_disjoint[of A B]
      diff_removed_set[of A B] diff_key_perm_not_changed[of A B] diff_sorted[of A B]
    by blast
qed

theorem diffServerMaps_correct_witness:
  "distinct (map fst example_current) \<and> distinct (map fst example_desired)
   \<and> diffServerMaps example_current example_desired
       = \<lparr>added = [''new''], removed = [''old''], changed = [], unchanged = 1\<rparr>
   \<and> unchanged_ids example_current example_desired = {''fs''}
   \<and> sorted (added (diffServerMaps example_current example_desired))"
proof -
  have d: "distinct (map fst example_current)" "distinct (map fst example_desired)"
    by (simp_all add: example_current_def example_desired_def)
  have kp: "key_perm (JObj [(''command'', JStr ''npx''), (''args'', JArr [JStr ''-y'', JStr ''pkg''])])
                     (JObj [(''args'', JArr [JStr ''-y'', JStr ''pkg'']), (''command'', JStr ''npx'')])"
    by (rule key_perm.obj[where kvs' = "[(''command'', JStr ''npx''), (''args'', JArr [JStr ''-y'', JStr ''pkg''])]"])
       (simp_all add: key_perm.same)
  have h: "\<forall>i a b. map_of example_current i = Some a \<longrightarrow> map_of example_desired i = Some b
            \<longrightarrow> wf_json a \<and> key_perm a b"
    using kp by (auto simp: example_current_def example_desired_def split: if_splits)
  have u: "unchanged_ids example_current example_desired = {''fs''}"
    by (auto simp: unchanged_ids_def example_current_def example_desired_def stableStringify_def)
  have a: "added (diffServerMaps example_current example_desired) = [''new'']"
    by (simp add: diff_added example_current_def example_desired_def)
  have r: "removed (diffServerMaps example_current example_desired) = [''old'']"
    by (simp add: diff_removed example_current_def example_desired_def)
  from diffServerMaps_correct[OF d] h u
  have "changed (diffServerMaps example_current example_desired) = []"
    and "unchanged (diffServerMaps example_current example_desired) = 1"
    and "sorted (added (diffServerMaps example_current example_desired))" by simp_all
  with a r d u show ?thesis
    by (cases "diffServerMaps example_current example_desired") simp
qed




section \<open>Properties of the enablement rule\<close>



section \<open>Properties of the secret resolver\<close>














section \<open>Properties of the planner and of the adapters' load\<close>

lemma readsOnlyI: "(\<And>w. snd (m w) = w) \<Longrightarrow> readsOnly m"
  by (simp add: readsOnly_def)

lemma readsOnlyD: "readsOnly m \<Longrightarrow> snd (m w) = w"
  by (simp add: readsOnly_def)

lemma readsOnly_ret [simp]: "readsOnly (ret x)"
  by (simp add: readsOnly_def ret_def)

lemma readsOnly_throw [simp]: "readsOnly (throw e)"
  by (simp add: readsOnly_def throw_def)

lemma readsOnly_liftResult [simp]: "readsOnly (liftResult r)"
  by (simp add: readsOnly_def liftResult_def)

lemma readsOnly_getProcess [simp]: "readsOnly (getProcess f)"
  by (simp add: readsOnly_def getProcess_def)

lemma readsOnly_andThen:
  assumes "readsOnly m" and "\<And>x. readsOnly (f x)"
  shows "readsOnly (andThen m f)"
proof (rule readsOnlyI)
  fix w
  obtain r w' where mw: "m w = (r, w')" by (cases "m w")
  with assms(1) have "w' = w" by (metis readsOnlyD snd_conv)
  with mw assms(2) show "snd (andThen m f w) = w"
    by (cases r) (simp_all add: andThen_def readsOnlyD)
qed

lemma readsOnly_tryCatch:
  assumes "readsOnly m" and "\<And>e. readsOnly (h e)"
  shows "readsOnly (tryCatch m h)"
proof (rule readsOnlyI)
  fix w
  obtain r w' where mw: "m w = (r, w')" by (cases "m w")
  with assms(1) have "w' = w" by (metis readsOnlyD snd_conv)
  with mw assms(2) show "snd (tryCatch m h w) = w"
    by (cases r) (simp_all add: tryCatch_def readsOnlyD)
qed

lemma readsOnly_if: "readsOnly a \<Longrightarrow> readsOnly b \<Longrightarrow> readsOnly (if c then a else b)"
  by simp

lemma readsOnly_access [simp]: "readsOnly (access p)"
  by (simp add: readsOnly_def access_def ret_def throw_def)

lemma readsOnly_readFile [simp]: "readsOnly (readFile p)"
  by (simp add: readsOnly_def readFile_def ret_def throw_def split: option.splits node.splits)

lemma readsOnly_readdir [simp]: "readsOnly (readdir p)"
  by (simp add: readsOnly_def readdir_def ret_def throw_def split: option.splits node.splits)

lemma readsOnly_pathExists [simp]: "readsOnly (pathExists p)"
  unfolding pathExists_def by (intro readsOnly_tryCatch readsOnly_andThen) simp_all

lemma readsOnly_readTextIfExists [simp]: "readsOnly (readTextIfExists p)"
  unfolding readTextIfExists_def by (intro readsOnly_andThen readsOnly_if) simp_all

lemma readsOnly_loadWith [simp]: "readsOnly (loadWith parse e p)"
  unfolding loadWith_def
  by (intro readsOnly_andThen) (simp_all add: readsOnly_andThen split: option.splits)

lemma readsOnly_resolvePaths [simp]:
  "readsOnly (Codex_resolvePath t)" "readsOnly (Gemini_resolvePath t)"
  "readsOnly (Claude_resolvePath t)" "readsOnly (Vscode_resolvePath t)"
  unfolding Codex_resolvePath_def Gemini_resolvePath_def Claude_resolvePath_def Vscode_resolvePath_def
  by (simp_all add: readsOnly_andThen split: option.splits)

lemma readsOnly_sourceAdapters:
  assumes "ad \<in> set sourceAdapters"
  shows "readsOnly (resolvePath ad t)" and "readsOnly (load ad p)"
  using assms
  by (auto simp: sourceAdapters_def CodexAdapter_def GeminiAdapter_def ClaudeAdapter_def VscodeAdapter_def)

lemma readsOnly_resolveSkillsDir [simp]: "readsOnly (resolveSkillsDir ag t)"
  unfolding resolveSkillsDir_def defaultSkillsOutputDir_def
  by (simp add: readsOnly_andThen split: option.splits)

lemma readsOnly_readSkillFiles [simp]: "readsOnly (readSkillFiles dir its acc)"
  by (induction its arbitrary: acc) (simp_all add: readsOnly_andThen)

lemma readsOnly_readManagedSkills [simp]: "readsOnly (readManagedSkills dir)"
  unfolding readManagedSkills_def
  by (intro readsOnly_andThen) (simp_all add: readsOnly_andThen split: option.splits)

lemma readsOnly_loadSkillContent [simp]: "readsOnly (loadSkillContent i s d)"
  unfolding loadSkillContent_def
  by (simp add: readsOnly_andThen split: option.splits json.splits)

lemma readsOnly_desiredSkillsLoop [simp]: "readsOnly (desiredSkillsLoop kvs ag t d acc)"
  by (induction kvs ag t d acc rule: desiredSkillsLoop.induct) (simp_all add: readsOnly_andThen)

lemma readsOnly_buildDesiredSkills [simp]: "readsOnly (buildDesiredSkills s ag t d)"
  by (simp add: buildDesiredSkills_def)

lemma readsOnly_pathResolve [simp]: "readsOnly (pathResolve p)"
  by (simp add: pathResolve_def readsOnly_andThen)

lemma readsOnly_planFor:
  assumes "\<And>t. readsOnly (resolvePath ad t)" and "\<And>p. readsOnly (load ad p)"
  shows "readsOnly (planFor config options d ad)"
  unfolding planFor_def Let_def
  by (intro readsOnly_andThen assms) simp_all

lemma readsOnly_planLoop:
  assumes "\<And>ad t. ad \<in> set ads \<Longrightarrow> readsOnly (resolvePath ad t)"
    and "\<And>ad p. ad \<in> set ads \<Longrightarrow> readsOnly (load ad p)"
  shows "readsOnly (planLoop config options d ads plans)"
  using assms
proof (induction ads arbitrary: plans)
  case Nil
  show ?case by simp
next
  case (Cons a ads)
  have "readsOnly (planFor config options d a)"
    by (rule readsOnly_planFor) (simp_all add: Cons.prems)
  moreover have "\<And>plan. readsOnly (planLoop config options d ads (plans @ [plan]))"
    by (rule Cons.IH) (simp_all add: Cons.prems)
  ultimately show ?case by (simp add: readsOnly_andThen)
qed

lemma readsOnly_buildPlan:
  assumes "\<And>t. readsOnly (resolvePath ag t)" and "\<And>p. readsOnly (load ag p)"
  shows "readsOnly (buildPlan ag config options)"
  unfolding buildPlan_def
proof (intro readsOnly_andThen readsOnly_getProcess readsOnly_planLoop)
  fix ad t p workDir
  assume "ad \<in> set (filter (\<lambda>item. AgentAdapter.agent item
            \<in> set (case agents options of None \<Rightarrow> AGENTS | Some l \<Rightarrow> l)) (getAdapters ag))"
  then have "ad \<in> set (getAdapters ag)"
    by (simp only: set_filter) blast
  then have "ad \<in> set sourceAdapters \<or> ad = ag"
    by (auto simp: getAdapters_def sourceAdapters_def)
  then show "readsOnly (resolvePath ad t)" "readsOnly (load ad p)"
    using assms readsOnly_sourceAdapters by auto
qed



lemma ret_eq [simp]: "(ret x w = (Inr y, w')) = (x = y \<and> w = w')"
  by (auto simp: ret_def)










text \<open>
  C8 (the planner only reads). Whatever the configuration and the options, \<open>buildPlan\<close>
  leaves the state as it found it, also when it fails: the file system is unchanged and no
  change is recorded. The adapter whose source is absent is a parameter; its \<open>resolvePath\<close>
  and \<open>load\<close> are taken to read only, as those of the four adapters present do.
\<close>

theorem buildPlan_no_writes:
  assumes "\<And>t. readsOnly (resolvePath antigravityAdapter t)"
    and "\<And>p. readsOnly (load antigravityAdapter p)"
  shows "fsys (snd (buildPlan antigravityAdapter config options w)) = fsys w
    \<and> mutations (snd (buildPlan antigravityAdapter config options w)) = mutations w
    \<and> snd (buildPlan antigravityAdapter config options w) = w"
  using readsOnly_buildPlan[OF assms, of config options] by (simp add: readsOnlyD)

theorem buildPlan_no_writes_witness:
  "snd (buildPlan example_antigravity example_config example_options example_world) = example_world"
proof -
  have 1: "\<And>t. readsOnly (resolvePath example_antigravity t)"
    by (simp add: example_antigravity_def GeminiAdapter_def)
  have 2: "\<And>p. readsOnly (load example_antigravity p)"
    by (simp add: example_antigravity_def GeminiAdapter_def)
  from buildPlan_no_writes[OF 1 2] show ?thesis by blast
qed



section \<open>Properties of the file writes and of the snapshot\<close>

lemma mkdir_fold_lookup:
  "map_of (fold (\<lambda>d acc. if map_of acc d = None then acc @ [(d, Dir)] else acc) ds fs) q
     = (if q \<in> set ds \<and> map_of fs q = None then Some Dir else map_of fs q)"
proof (induction ds arbitrary: fs)
  case Nil
  show ?case by simp
next
  case (Cons d ds)
  show ?case
    by (auto simp: Cons.IH map_add_def split: option.splits if_splits)
qed

lemma applyMutation_Mkdir_lookup:
  "map_of (applyMutation (Mkdir d) fs) q
     = (if q \<in> set (parentDirs d @ [d]) \<and> map_of fs q = None then Some Dir else map_of fs q)"
  by (simp only: applyMutation.simps mkdir_fold_lookup)

lemma applyMutation_lookup:
  "map_of (applyMutation (WriteFile p c) fs) q = (if q = p then Some (File c) else map_of fs q)"
  "map_of (applyMutation (Rename a b) fs) q
     = (case map_of fs a of
          None \<Rightarrow> map_of fs q
        | Some n \<Rightarrow> if q = b then Some n else if q = a then None else map_of fs q)"
  "map_of (applyMutation (Remove p) fs) q = (if q = p then None else map_of fs q)"
  "map_of (applyMutation (CopyFile a b) fs) q
     = (case map_of fs a of
          Some (File c) \<Rightarrow> if q = b then Some (File c) else map_of fs q
        | _ \<Rightarrow> map_of fs q)"
  by (simp_all add: update_conv' delete_conv' split: option.splits node.splits)

lemma showNat_digits: "set (showNat n) \<subseteq> set ''0123456789''"
proof (induction n rule: showNat.induct)
  case (1 n)
  have d: "\<And>k. k < 10 \<Longrightarrow> digitChar k \<in> set ''0123456789''"
    unfolding digitChar_def by (rule nth_mem) simp
  show ?case
  proof (cases "n < 10")
    case True
    then show ?thesis using d[of n] by (subst showNat.simps) simp
  next
    case False
    have "n mod 10 < 10" by simp
    with 1 False d[of "n mod 10"] show ?thesis by (subst showNat.simps) simp
  qed
qed

lemma showNat_no_slash: "CHR ''/'' \<notin> set (showNat n)"
  using showNat_digits[of n] by auto

lemma dirname_append:
  assumes "CHR ''/'' \<notin> set s"
  shows "dirname (p @ s) = dirname p"
proof -
  have "dropWhile (\<lambda>c. c \<noteq> CHR ''/'') (rev s @ rev p) = dropWhile (\<lambda>c. c \<noteq> CHR ''/'') (rev p)"
    using assms by (intro dropWhile_append2) auto
  then show ?thesis by (simp add: dirname_def)
qed

lemma tempFor_tempPathOf: "tempFor p (tempPathOf p i t)"
proof -
  have "CHR ''/'' \<notin> set (''.tmp-'' @ showNat i @ ''-'' @ showNat t)"
    using showNat_no_slash by simp
  then have "dirname (p @ (''.tmp-'' @ showNat i @ ''-'' @ showNat t)) = dirname p"
    by (rule dirname_append)
  then show ?thesis by (simp add: tempFor_def tempPathOf_def)
qed

lemma tempPathOf_neq: "tempPathOf p i t \<noteq> p"
  by (simp add: tempPathOf_def)

lemma complete_append: "complete a \<Longrightarrow> complete b \<Longrightarrow> complete (a @ b)"
  by (induction a rule: complete.induct) auto

lemma atomicWrites_other:
  "atomicWrites (Mkdir p # xs) = atomicWrites xs"
  "atomicWrites (Remove p # xs) = atomicWrites xs"
  "atomicWrites (CopyFile p q # xs) = atomicWrites xs"
  by (cases xs; simp)+

lemma complete_atomic_append: "complete a \<Longrightarrow> atomicWrites b \<Longrightarrow> atomicWrites (a @ b)"
  by (induction a rule: complete.induct) (auto simp: atomicWrites_other)


lemma tracesOKI:
  "(\<And>w. \<exists>ms. mutations (snd (m w)) = mutations w @ ms
        \<and> (case fst (m w) of Inr x \<Rightarrow> complete ms | Inl e \<Rightarrow> atomicWrites ms)) \<Longrightarrow> tracesOK m"
  by (simp add: tracesOK_def)

lemma tracesOK_readsOnly: "readsOnly m \<Longrightarrow> tracesOK m"
proof (rule tracesOKI)
  fix w assume "readsOnly m"
  then have "snd (m w) = w" by (simp add: readsOnly_def)
  then have "mutations (snd (m w)) = mutations w @ []" by simp
  moreover have "case fst (m w) of Inr x \<Rightarrow> complete [] | Inl e \<Rightarrow> atomicWrites []"
    by (simp split: sum.splits)
  ultimately show "\<exists>ms. mutations (snd (m w)) = mutations w @ ms
        \<and> (case fst (m w) of Inr x \<Rightarrow> complete ms | Inl e \<Rightarrow> atomicWrites ms)" by blast
qed

lemma tracesOK_now: "tracesOK now"
  by (rule tracesOKI) (simp add: now_def)

lemma tracesOK_andThen:
  assumes "tracesOK m" and "\<And>x. tracesOK (f x)"
  shows "tracesOK (andThen m f)"
proof (rule tracesOKI)
  fix w
  obtain r w1 where mw: "m w = (r, w1)" by (cases "m w")
  from assms(1) obtain ms1 where m1: "mutations w1 = mutations w @ ms1"
    and c1: "case r of Inr x \<Rightarrow> complete ms1 | Inl e \<Rightarrow> atomicWrites ms1"
    unfolding tracesOK_def using mw by (metis fst_conv snd_conv)
  show "\<exists>ms. mutations (snd (andThen m f w)) = mutations w @ ms
        \<and> (case fst (andThen m f w) of Inr x \<Rightarrow> complete ms | Inl e \<Rightarrow> atomicWrites ms)"
  proof (cases r)
    case (Inl e)
    with mw m1 c1 show ?thesis by (auto simp: andThen_def)
  next
    case (Inr x)
    from assms(2)[of x] obtain ms2 where m2: "mutations (snd (f x w1)) = mutations w1 @ ms2"
      and c2: "case fst (f x w1) of Inr y \<Rightarrow> complete ms2 | Inl e \<Rightarrow> atomicWrites ms2"
      unfolding tracesOK_def by blast
    have e: "andThen m f w = f x w1" using mw Inr by (simp add: andThen_def)
    have "mutations (snd (andThen m f w)) = mutations w @ (ms1 @ ms2)" using e m1 m2 by simp
    moreover have "case fst (andThen m f w) of Inr y \<Rightarrow> complete (ms1 @ ms2)
                     | Inl e \<Rightarrow> atomicWrites (ms1 @ ms2)"
      using e c1 c2 Inr
      by (auto split: sum.splits intro: complete_append complete_atomic_append)
    ultimately show ?thesis by blast
  qed
qed

lemma tracesOK_if: "tracesOK a \<Longrightarrow> tracesOK b \<Longrightarrow> tracesOK (if c then a else b)"
  by simp

lemma tracesOK_forEach:
  assumes "\<And>x. tracesOK (body x)"
  shows "tracesOK (forEach xs body)"
  by (induction xs) (simp_all add: tracesOK_readsOnly tracesOK_andThen assms)

lemma tracesOK_other:
  assumes "complete [m]"
  shows "tracesOK (mutate m)"
  by (rule tracesOKI) (simp add: mutate_def assms)

lemma tracesOK_mkdirRecursive: "tracesOK (mkdirRecursive p)"
proof (rule tracesOKI)
  fix w
  show "\<exists>ms. mutations (snd (mkdirRecursive p w)) = mutations w @ ms
        \<and> (case fst (mkdirRecursive p w) of Inr x \<Rightarrow> complete ms | Inl e \<Rightarrow> atomicWrites ms)"
    by (cases "list_ex (\<lambda>d. isFileNode (nodeAt w d)) (parentDirs p @ [p])")
       (simp_all add: mkdirRecursive_def throw_def mutate_def del: list_ex_append)
qed

lemma tracesOK_rmForce: "tracesOK (rmForce p)"
  by (rule tracesOKI)
     (simp add: rmForce_def throw_def ret_def mutate_def split: option.splits node.splits)

lemma tracesOK_copyFile: "tracesOK (copyFile a b)"
  by (rule tracesOKI)
     (simp add: copyFile_def throw_def ret_def mutate_def split: option.splits node.splits)

lemma tracesOK_ensureParentDir: "tracesOK (ensureParentDir p)"
  by (simp add: ensureParentDir_def tracesOK_mkdirRecursive)

text \<open>The run of writeTextAtomic, case by case.\<close>

lemma writeTextAtomic_run:
  fixes w p c
  defines "d \<equiv> dirname p" and "tmp \<equiv> tempPathOf p (pid w) (clock w (ticks w))"
  defines "w1 \<equiv> w\<lparr> fsys := applyMutation (Mkdir d) (fsys w), mutations := mutations w @ [Mkdir d] \<rparr>"
  defines "w1' \<equiv> w1\<lparr> ticks := ticks w + 1 \<rparr>"
  defines "w2 \<equiv> w1'\<lparr> fsys := applyMutation (WriteFile tmp c) (fsys w1'),
                       mutations := mutations w1' @ [WriteFile tmp c] \<rparr>"
  defines "w3 \<equiv> w2\<lparr> fsys := applyMutation (Rename tmp p) (fsys w2),
                      mutations := mutations w2 @ [Rename tmp p] \<rparr>"
  shows "writeTextAtomic p c w =
     (if list_ex (\<lambda>q. isFileNode (nodeAt w q)) (parentDirs d @ [d]) then (Inl (EEXIST d), w)
      else if nodeAt w1' tmp = Some Dir then (Inl (EISDIR tmp), w1')
      else if nodeAt w2 p = Some Dir then (Inl (EISDIR p), w2)
      else (Inr (), w3))"
proof -
  have t: "nodeAt w2 tmp \<noteq> None"
    by (simp add: w2_def nodeAt_def update_conv')
  show ?thesis
    unfolding writeTextAtomic_def ensureParentDir_def mkdirRecursive_def
    using t
    by (auto simp add: andThen_def throw_def mutate_def getProcess_def now_def writeFile_def
          rename_def d_def tmp_def w1_def w1'_def w2_def w3_def nodeAt_def
          simp del: list_ex_append applyMutation.simps)
qed

lemma tracesOK_writeTextAtomic: "tracesOK (writeTextAtomic p c)"
proof (rule tracesOKI)
  fix w :: world
  let ?tmp = "tempPathOf p (pid w) (clock w (ticks w))"
  have tf: "tempFor p ?tmp" by (rule tempFor_tempPathOf)
  have dangling: "list_ex (\<lambda>n. tempFor (take n ?tmp) ?tmp) [0..<Suc (length ?tmp)]"
  proof -
    have "take (length p) ?tmp = p" by (simp add: tempPathOf_def)
    moreover have "length p \<in> set [0..<Suc (length ?tmp)]" by (simp add: tempPathOf_def)
    ultimately show ?thesis using tf unfolding list_ex_iff by metis
  qed
  show "\<exists>ms. mutations (snd (writeTextAtomic p c w)) = mutations w @ ms
        \<and> (case fst (writeTextAtomic p c w) of Inr x \<Rightarrow> complete ms | Inl e \<Rightarrow> atomicWrites ms)"
    using tf dangling
    by (simp add: writeTextAtomic_run del: list_ex_append applyMutation.simps upt_Suc)
qed

lemma tracesOK_copyIfExists: "tracesOK (copyIfExists a b)"
  unfolding copyIfExists_def
  by (intro tracesOK_andThen tracesOK_if tracesOK_readsOnly tracesOK_ensureParentDir
        tracesOK_copyFile) simp_all

lemma tracesOK_backupSkillsState: "tracesOK (backupSkillsState plan snapDir)"
  unfolding backupSkillsState_def Let_def
  apply (intro tracesOK_andThen tracesOK_mkdirRecursive tracesOK_forEach tracesOK_if
          tracesOK_copyIfExists)
       apply (simp_all add: tracesOK_readsOnly tracesOK_writeTextAtomic split: option.splits)
  done

lemma tracesOK_applySkills: "tracesOK (applySkills plan)"
  unfolding applySkills_def
  apply (intro tracesOK_andThen tracesOK_ensureParentDir tracesOK_forEach tracesOK_if
          tracesOK_writeTextAtomic tracesOK_rmForce)
     apply (simp_all add: tracesOK_readsOnly)
  done

lemma tracesOK_applyOne: "tracesOK (applyOne snapDir plan)"
  unfolding applyOne_def
  apply (intro tracesOK_andThen tracesOK_if tracesOK_copyIfExists tracesOK_backupSkillsState
          tracesOK_ensureParentDir tracesOK_writeTextAtomic tracesOK_applySkills)
          apply (simp_all add: tracesOK_readsOnly)
  done

lemma tracesOK_applyLoop: "tracesOK (applyLoop snapDir plans acc)"
  by (induction plans arbitrary: acc)
     (simp_all add: tracesOK_readsOnly tracesOK_andThen tracesOK_applyOne)

lemma dirname_cases:
  "dirname p = ''.'' \<or> dirname p = ''/'' \<or> (\<exists>i<length p. dirname p = take i p)"
proof -
  let ?P = "\<lambda>c. c \<noteq> CHR ''/''"
  let ?r = "dropWhile ?P (rev p)"
  show ?thesis
  proof (cases ?r)
    case Nil
    then show ?thesis by (simp add: dirname_def)
  next
    case (Cons x r')
    show ?thesis
    proof (cases r')
      case Nil
      with Cons show ?thesis by (simp add: dirname_def)
    next
      case (Cons y r'')
      have "rev p = takeWhile ?P (rev p) @ x # r'"
        using \<open>?r = x # r'\<close> by (metis takeWhile_dropWhile_id)
      then have "p = rev r' @ x # rev (takeWhile ?P (rev p))"
        by (metis rev_append rev.simps(2) rev_rev_ident append.assoc append_Cons append_Nil)
      then have "take (length r') p = rev r'" and "length r' < length p"
        by (metis append_eq_conv_conj length_rev, metis length_append length_rev
            less_add_Suc1 list.size(4) add_Suc_right)
      moreover have "dirname p = rev r'"
        using \<open>?r = x # r'\<close> Cons by (simp add: dirname_def)
      ultimately show ?thesis by metis
    qed
  qed
qed

lemma not_own_parent:
  assumes "p \<noteq> ''.''" and "p \<noteq> ''/''"
  shows "p \<notin> set (parentDirs (dirname p) @ [dirname p])"
proof
  assume m: "p \<in> set (parentDirs (dirname p) @ [dirname p])"
  have short: "\<And>d q. q \<in> set (parentDirs d) \<Longrightarrow> length q < length d"
    by (auto simp: parentDirs_def)
  from dirname_cases[of p] show False
  proof (elim disjE exE conjE)
    assume d: "dirname p = ''.''"
    have "parentDirs ''.'' = []" by (simp add: parentDirs_def)
    with m d assms show False by simp
  next
    assume d: "dirname p = ''/''"
    have "parentDirs ''/'' = []" by (simp add: parentDirs_def)
    with m d assms show False by simp
  next
    fix i assume i: "i < length p" and d: "dirname p = take i p"
    then have l: "length (dirname p) < length p" by simp
    from m have "p = dirname p \<or> p \<in> set (parentDirs (dirname p))" by auto
    then show False using l short[of p "dirname p"] by auto
  qed
qed

lemma fold_take_cases:
  "k \<le> 3 \<Longrightarrow> k = 0 \<or> k = 1 \<or> k = 2 \<or> k = (3::nat)"
  by arith

lemma atomic_prefix_untouched:
  assumes np: "p \<notin> set (parentDirs (dirname p) @ [dirname p])" and k: "k < 3"
  shows "map_of (fold applyMutation (take k (atomicSteps w p c)) (fsys w)) p = map_of (fsys w) p"
proof -
  from k have "k = 0 \<or> k = 1 \<or> k = 2" by arith
  then show ?thesis
  proof (elim disjE)
    assume "k = 0" then show ?thesis by simp
  next
    assume "k = 1"
    then show ?thesis using np
      by (simp add: atomicSteps_def applyMutation_Mkdir_lookup del: applyMutation.simps)
  next
    assume "k = 2"
    then have "take k (atomicSteps w p c)
       = [Mkdir (dirname p), WriteFile (tempPathOf p (pid w) (clock w (ticks w))) c]"
      by (simp add: atomicSteps_def numeral_2_eq_2)
    then show ?thesis using np tempPathOf_neq[of p "pid w" "clock w (ticks w)"]
      by (simp add: applyMutation_Mkdir_lookup applyMutation_lookup del: applyMutation.simps)
  qed
qed

lemma writeTextAtomic_steps:
  "\<exists>k \<le> 3. mutations (snd (writeTextAtomic p c w)) = mutations w @ take k (atomicSteps w p c)
      \<and> fsys (snd (writeTextAtomic p c w)) = fold applyMutation (take k (atomicSteps w p c)) (fsys w)
      \<and> ((fst (writeTextAtomic p c w) = Inr ()) = (k = 3))"
proof -
  let ?d = "dirname p" and ?tmp = "tempPathOf p (pid w) (clock w (ticks w))"
  let ?w1 = "w\<lparr> fsys := applyMutation (Mkdir ?d) (fsys w), mutations := mutations w @ [Mkdir ?d] \<rparr>"
  let ?w1' = "?w1\<lparr> ticks := ticks w + 1 \<rparr>"
  let ?w2 = "?w1'\<lparr> fsys := applyMutation (WriteFile ?tmp c) (fsys ?w1'),
                      mutations := mutations ?w1' @ [WriteFile ?tmp c] \<rparr>"
  have t2: "take 2 (atomicSteps w p c) = [Mkdir ?d, WriteFile ?tmp c]"
    by (simp add: atomicSteps_def numeral_2_eq_2)
  have t1: "take (Suc 0) (atomicSteps w p c) = [Mkdir ?d]"
    by (simp add: atomicSteps_def)
  have t3: "take 3 (atomicSteps w p c) = atomicSteps w p c"
    by (simp add: atomicSteps_def)
  consider (a) "list_ex (\<lambda>q. isFileNode (nodeAt w q)) (parentDirs ?d @ [?d])"
    | (b) "\<not> list_ex (\<lambda>q. isFileNode (nodeAt w q)) (parentDirs ?d @ [?d])" "nodeAt ?w1' ?tmp = Some Dir"
    | (c) "\<not> list_ex (\<lambda>q. isFileNode (nodeAt w q)) (parentDirs ?d @ [?d])" "nodeAt ?w1' ?tmp \<noteq> Some Dir"
          "nodeAt ?w2 p = Some Dir"
    | (d) "\<not> list_ex (\<lambda>q. isFileNode (nodeAt w q)) (parentDirs ?d @ [?d])" "nodeAt ?w1' ?tmp \<noteq> Some Dir"
          "nodeAt ?w2 p \<noteq> Some Dir"
    by blast
  then show ?thesis
  proof cases
    case a
    then have "writeTextAtomic p c w = (Inl (EEXIST ?d), w)"
      by (simp add: writeTextAtomic_run del: list_ex_append applyMutation.simps)
    then show ?thesis by (intro exI[of _ 0]) simp
  next
    case b
    then have "writeTextAtomic p c w = (Inl (EISDIR ?tmp), ?w1')"
      by (simp add: writeTextAtomic_run del: list_ex_append applyMutation.simps)
    then show ?thesis by (intro exI[of _ 1]) (simp add: t1 del: applyMutation.simps)
  next
    case c
    then have "writeTextAtomic p c w = (Inl (EISDIR p), ?w2)"
      by (simp add: writeTextAtomic_run del: list_ex_append applyMutation.simps)
    then show ?thesis by (intro exI[of _ 2]) (simp add: t2 del: applyMutation.simps)
  next
    case d
    then have "writeTextAtomic p c w
       = (Inr (), ?w2\<lparr> fsys := applyMutation (Rename ?tmp p) (fsys ?w2),
                         mutations := mutations ?w2 @ [Rename ?tmp p] \<rparr>)"
      by (simp add: writeTextAtomic_run del: list_ex_append applyMutation.simps)
    then show ?thesis
      by (intro exI[of _ 3]) (simp add: t3 atomicSteps_def del: applyMutation.simps)
  qed
qed

lemma writeTextAtomic_written:
  assumes "fst (writeTextAtomic p c w) = Inr ()"
  shows "nodeAt (snd (writeTextAtomic p c w)) p = Some (File c)"
proof -
  from writeTextAtomic_steps[of p c w] assms
  have "fsys (snd (writeTextAtomic p c w)) = fold applyMutation (atomicSteps w p c) (fsys w)"
    by (auto simp: atomicSteps_def)
  then show ?thesis
    by (simp add: nodeAt_def atomicSteps_def applyMutation_lookup update_conv'
          del: applyMutation.simps)
qed

text \<open>
  C7 (atomic write), as amended. \<open>writeTextAtomic\<close> makes at most three changes, in this
  order: it creates the parent directory, writes the whole text to a temporary name in the
  directory of the target, and renames that name to the target; it returns exactly when
  all three were made, and then the target holds the text. A run that stops before the
  rename leaves the target as it was: the rename is the only change that touches the
  target (a target other than \<open>.\<close> and \<open>/\<close>). In the loop of \<open>applyPlan\<close> over the plans
  every write of a file (native configuration, skill files, skills manifest, the backup
  of the manifest) is such a temporary write followed at once by its rename, also when
  the loop fails part-way.
\<close>

theorem atomic_write:
  assumes "filePath \<noteq> ''.''" and "filePath \<noteq> ''/''"
  shows "(\<exists>k \<le> 3. mutations (snd (writeTextAtomic filePath c w))
                     = mutations w @ take k (atomicSteps w filePath c)
              \<and> fsys (snd (writeTextAtomic filePath c w))
                     = fold applyMutation (take k (atomicSteps w filePath c)) (fsys w)
              \<and> ((fst (writeTextAtomic filePath c w) = Inr ()) = (k = 3)))
    \<and> (\<forall>k < 3. map_of (fold applyMutation (take k (atomicSteps w filePath c)) (fsys w)) filePath
                   = map_of (fsys w) filePath)
    \<and> (fst (writeTextAtomic filePath c w) = Inr ()
         \<longrightarrow> nodeAt (snd (writeTextAtomic filePath c w)) filePath = Some (File c))
    \<and> tempFor filePath (tempPathOf filePath (pid w) (clock w (ticks w)))
    \<and> tracesOK (applyLoop snapDir plans acc)"
  using writeTextAtomic_steps[of filePath c w]
    atomic_prefix_untouched[OF not_own_parent[OF assms], of _ w c]
    writeTextAtomic_written[of filePath c w]
    tempFor_tempPathOf[of filePath "pid w" "clock w (ticks w)"]
    tracesOK_applyLoop[of snapDir plans acc]
  by blast

theorem atomic_write_witness:
  "mutations (snd (writeTextAtomic ''/home/u/.gemini/settings.json'' (Json (JObj [])) sync_world))
     = [Mkdir ''/home/u/.gemini'',
        WriteFile ''/home/u/.gemini/settings.json.tmp-7-1000'' (Json (JObj [])),
        Rename ''/home/u/.gemini/settings.json.tmp-7-1000'' ''/home/u/.gemini/settings.json'']
   \<and> nodeAt (snd (writeTextAtomic ''/home/u/.gemini/settings.json'' (Json (JObj [])) sync_world))
         ''/home/u/.gemini/settings.json'' = Some (File (Json (JObj [])))"
proof -
  have m: "mutations (snd (writeTextAtomic ''/home/u/.gemini/settings.json'' (Json (JObj [])) sync_world))
     = [Mkdir ''/home/u/.gemini'',
        WriteFile ''/home/u/.gemini/settings.json.tmp-7-1000'' (Json (JObj [])),
        Rename ''/home/u/.gemini/settings.json.tmp-7-1000'' ''/home/u/.gemini/settings.json'']"
    by code_simp
  have r: "fst (writeTextAtomic ''/home/u/.gemini/settings.json'' (Json (JObj [])) sync_world) = Inr ()"
    by code_simp
  have a: "''/home/u/.gemini/settings.json'' \<noteq> ''.''" and b: "''/home/u/.gemini/settings.json'' \<noteq> ''/''"
    by simp_all
  from atomic_write[OF a b, of "Json (JObj [])" sync_world] r m show ?thesis by blast
qed

text \<open>
  The claim as worded fails: the sync copies the backup of the native file straight to its
  place in the snapshot, and writes \<open>meta.json\<close> straight to its final path, with no
  temporary file and no rename.
\<close>

theorem direct_writes_counterexample:
  "mutations (snd (applyPlan [sync_plan] sync_world)) =
     [Mkdir ''/home/u/.uac/snapshots/1000'',
      Mkdir ''/home/u/.uac/snapshots/1000'',
      CopyFile ''/home/u/.gemini/settings.json'' ''/home/u/.uac/snapshots/1000/gemini.json'',
      Mkdir ''/home/u/.gemini'',
      Mkdir ''/home/u/.gemini'',
      WriteFile ''/home/u/.gemini/settings.json.tmp-7-1001''
        (Json (JObj [(''theme'', JStr ''dark''),
                     (''mcpServers'', JObj [(''fs'', JObj [(''type'', JStr ''stdio''),
                                                          (''command'', JStr ''npx'')])])])),
      Rename ''/home/u/.gemini/settings.json.tmp-7-1001'' ''/home/u/.gemini/settings.json'',
      WriteFile ''/home/u/.uac/snapshots/1000/meta.json''
        (MetaFile \<lparr> RollbackMeta.snapshotId = ''1000'', createdAt = ''1002'',
            applied = [\<lparr> AppliedAgent.agent = ''gemini'',
                          mcpPath = ''/home/u/.gemini/settings.json'',
                          mcpChanged = True,
                          mcpBackupPath = Some ''/home/u/.uac/snapshots/1000/gemini.json'',
                          mcpExistedBefore = True,
                          skillsDir = ''/home/u/.gemini/skills/uac-managed'',
                          skillsChanged = False,
                          skillsBackupDir = None,
                          skillsManifestExistedBefore = False \<rparr>] \<rparr>)]
   \<and> \<not> atomicWrites (mutations (snd (applyPlan [sync_plan] sync_world)))"
  by code_simp













section \<open>Round trip of sync and rollback\<close>

























end
